theory Spec2Isabelle
  imports Complex_Main "HOL-Library.List_Lexorder" "HOL-Library.Char_ord" "HOL-Library.Sublist"
begin

section \<open>Python values shared by the modelled modules\<close>

text \<open>
  Exceptions are values. Every \<^verbatim>\<open>raise\<close>, failed subscript and failed division of the
  modelled code is a branch returning \<open>Inl\<close> of one of these; \<open>Raised\<close> is an exception
  thrown inside a collaborator whose code lies outside the modelled modules.
\<close>

datatype error =
    IndexError
  | KeyError string
  | ZeroDivisionError
  | NotImplementedError
  | FileNotFoundError string
  | Raised string

text \<open>Python strings are compared by code point, lists of strings lexicographically;
  \<^verbatim>\<open>sorted\<close> and \<^verbatim>\<open>list.sort\<close> are stable sorts by that order, which is \<open>sort\<close> on
  \<open>string\<close> with the character order of \<open>Char_ord\<close>.\<close>

section \<open>source/data_model/dataset/Dataset.py\<close>

text \<open>
  \<^verbatim>\<open>EncodedData\<close> is declared outside the modelled files; a dataset only stores it. It is a
  feature matrix with label vectors and feature names.
\<close>

record encoded_data =
  examples :: "real list list"
  labels :: "(string \<times> real list) list"
  feature_names :: "string list"

text \<open>
  The fields of \<^verbatim>\<open>Dataset\<close>, in the order \<^verbatim>\<open>__init__\<close> assigns them. \<^verbatim>\<open>data\<close> is an
  opaque iterable (here a list of item names), \<^verbatim>\<open>params\<close> a dictionary from label
  names to their values; an absent optional argument is \<open>None\<close>.
\<close>

record dataset =
  data :: "string list option"
  params :: "(string \<times> string list) list option"
  encoded :: "encoded_data option"
  dataset_id :: string
  filenames :: "string list"
  metadata_file :: "string option"

text \<open>
  \<^verbatim>\<open>Dataset.__init__\<close>. The value \<^verbatim>\<open>uuid.uuid1()\<close> would return is the argument \<open>uuid1\<close>:
  it is used only when no identifier is passed.
\<close>

definition Dataset_init ::
  "string \<Rightarrow> string list option \<Rightarrow> (string \<times> string list) list option \<Rightarrow> encoded_data option \<Rightarrow>
   string list option \<Rightarrow> string option \<Rightarrow> string option \<Rightarrow> dataset" where
  "Dataset_init uuid1 dat ps enc fns identifier mf =
     \<lparr> data = dat,
       params = ps,
       encoded = enc,
       dataset_id = (case identifier of Some i \<Rightarrow> i | None \<Rightarrow> uuid1),
       filenames = (case fns of Some fs \<Rightarrow> sort fs | None \<Rightarrow> []),
       metadata_file = mf \<rparr>"

definition add_data :: "dataset \<Rightarrow> string list \<Rightarrow> dataset" where
  "add_data self dat = self\<lparr>data := Some dat\<rparr>"

definition add_encoded_data :: "dataset \<Rightarrow> encoded_data \<Rightarrow> dataset" where
  "add_encoded_data self enc = self\<lparr>encoded := Some enc\<rparr>"

text \<open>
  \<^verbatim>\<open>get_data\<close> sorts the stored list in place and hands that list to
  \<^verbatim>\<open>RepertoireGenerator.build_generator\<close>. The model returns the object after the call
  together with the \<^verbatim>\<open>file_list\<close> and \<^verbatim>\<open>batch_size\<close> the generator is built from; the
  generator walks that list front to back.
\<close>

definition get_data :: "dataset \<Rightarrow> nat \<Rightarrow> dataset \<times> (string list \<times> nat)" where
  "get_data self batch_size =
     (let self' = self\<lparr>filenames := sort (filenames self)\<rparr>
      in (self', (filenames self', batch_size)))"

definition get_repertoire_count :: "dataset \<Rightarrow> nat" where
  "get_repertoire_count self = length (filenames self)"

definition set_filenames :: "dataset \<Rightarrow> string list \<Rightarrow> dataset" where
  "set_filenames self fns = self\<lparr>filenames := sort fns\<rparr>"

definition get_filenames :: "dataset \<Rightarrow> string list" where
  "get_filenames self = filenames self"


section \<open>source/preprocessing/filters/DatasetChainFilter.py\<close>

text \<open>
  The filter works on a \<^verbatim>\<open>RepertoireDataset\<close>, whose class file is not among the modelled
  files; it is used through \<^verbatim>\<open>get_data\<close>, \<^verbatim>\<open>get_filenames\<close>, \<^verbatim>\<open>set_filenames\<close> and
  \<^verbatim>\<open>metadata_file\<close> only, and is taken to be the \<^verbatim>\<open>Dataset\<close> class above.

  \<^verbatim>\<open>Chain\<close> is an enumeration declared outside the modelled files. A member is identified
  by its name; \<open>members\<close> lists the declared names, and the subscript \<^verbatim>\<open>Chain[name]\<close>
  raises \<^verbatim>\<open>KeyError\<close> for any other name.
\<close>

datatype chain = Chain string

definition Chain_getitem :: "string list \<Rightarrow> string \<Rightarrow> error + chain" where
  "Chain_getitem members name =
     (if name \<in> set members then Inr (Chain name) else Inl (KeyError name))"

text \<open>\<^verbatim>\<open>str.upper\<close>, on the ASCII letters.\<close>

definition upper_char :: "char \<Rightarrow> char" where
  "upper_char c =
     (case map_of (zip ''abcdefghijklmnopqrstuvwxyz'' ''ABCDEFGHIJKLMNOPQRSTUVWXYZ'') c of
        Some u \<Rightarrow> u
      | None \<Rightarrow> c)"

definition upper :: "string \<Rightarrow> string" where
  "upper s = map upper_char s"

text \<open>A receptor sequence with the chain of its metadata (\<^verbatim>\<open>sequence.metadata.chain\<close>), and
  a repertoire as the filter reads it.\<close>

record receptor_sequence =
  amino_acid_sequence :: string
  metadata_chain :: chain

record repertoire =
  rep_identifier :: string
  sequences :: "receptor_sequence list"

text \<open>The parameter dictionary of \<^verbatim>\<open>process\<close>, with the two keys it reads.\<close>

record filter_params =
  keep_chain :: string
  result_path :: string

text \<open>The files on disk: a path holds a pickled repertoire, or does not exist.\<close>

type_synonym disk = "string \<Rightarrow> repertoire option"

text \<open>\<^verbatim>\<open>os.rename(src, dst)\<close>: fails when \<open>src\<close> does not exist, replaces \<open>dst\<close> otherwise
  (and changes nothing when both are the same existing file).\<close>

definition os_rename :: "string \<Rightarrow> string \<Rightarrow> disk \<Rightarrow> error + disk" where
  "os_rename src dst fs =
     (case fs src of
        None \<Rightarrow> Inl (FileNotFoundError src)
      | Some content \<Rightarrow> Inr ((fs(src := None))(dst \<mapsto> content)))"

text \<open>
  \<^verbatim>\<open>all(sequence.metadata.chain == Chain[params["keep_chain"].upper()] for sequence in ...)\<close>:
  the subscript is evaluated once per sequence visited, so it raises only when there is a
  sequence; the scan stops at the first sequence of another chain.
\<close>

fun all_chain :: "string list \<Rightarrow> string \<Rightarrow> receptor_sequence list \<Rightarrow> error + bool" where
  "all_chain members keep [] = Inr True"
| "all_chain members keep (s # ss) =
     (case Chain_getitem members (upper keep) of
        Inl e \<Rightarrow> Inl e
      | Inr c \<Rightarrow> if metadata_chain s = c then all_chain members keep ss else Inr False)"

text \<open>The path a kept repertoire is moved to:
  \<^verbatim>\<open>params["result_path"] + "{}.pickle".format(repertoire.identifier)\<close>.\<close>

definition new_filename :: "filter_params \<Rightarrow> repertoire \<Rightarrow> string" where
  "new_filename ps rep = result_path ps @ rep_identifier rep @ ''.pickle''"

text \<open>
  The body of the \<^verbatim>\<open>for index, repertoire in enumerate(dataset.get_data())\<close> loop. The
  generator opens each file of the list when the loop reaches it, so a file is read from
  the disk as the earlier iterations left it. \<open>fns\<close> is \<^verbatim>\<open>dataset.get_filenames()\<close>, and
  \<open>kept\<close> and \<open>indices\<close> are the lists \<^verbatim>\<open>filenames\<close> and \<^verbatim>\<open>indices\<close> being appended to.
\<close>

fun process_loop ::
  "string list \<Rightarrow> filter_params \<Rightarrow> string list \<Rightarrow> (nat \<times> string) list \<Rightarrow> string list \<Rightarrow> nat list \<Rightarrow>
   disk \<Rightarrow> (error + string list \<times> nat list) \<times> disk" where
  "process_loop members ps fns [] kept indices fs = (Inr (kept, indices), fs)"
| "process_loop members ps fns ((index, file) # rest) kept indices fs =
     (case fs file of
        None \<Rightarrow> (Inl (FileNotFoundError file), fs)
      | Some rep \<Rightarrow>
          (case all_chain members (keep_chain ps) (sequences rep) of
             Inl e \<Rightarrow> (Inl e, fs)
           | Inr False \<Rightarrow> process_loop members ps fns rest kept indices fs
           | Inr True \<Rightarrow>
               (let filename = new_filename ps rep
                in if length fns \<le> index then (Inl IndexError, fs)
                   else (case os_rename (fns ! index) filename fs of
                           Inl e \<Rightarrow> (Inl e, fs)
                         | Inr fs' \<Rightarrow>
                             process_loop members ps fns rest (kept @ [filename]) (indices @ [index]) fs'))))"

text \<open>
  \<^verbatim>\<open>DatasetChainFilter.process\<close>. \<^verbatim>\<open>copy.deepcopy\<close> gives a second object with equal
  fields; the input object is the one \<^verbatim>\<open>get_data\<close> sorts in place. \<^verbatim>\<open>build_new_metadata\<close>
  is inherited from a class outside the modelled files and is a parameter. The result is
  the returned dataset (or the exception), the input object after the call, and the disk.
\<close>

definition process ::
  "string list \<Rightarrow> (dataset \<Rightarrow> nat list \<Rightarrow> string \<Rightarrow> error + string option) \<Rightarrow> dataset \<Rightarrow> filter_params \<Rightarrow>
   disk \<Rightarrow> (error + dataset) \<times> dataset \<times> disk" where
  "process members build_new_metadata dataset ps fs =
     (let processed_dataset = dataset;
          (dataset', (file_list, batch_size)) = get_data dataset 1
      in case process_loop members ps (get_filenames dataset') (enumerate 0 file_list) [] [] fs of
           (Inl e, fs') \<Rightarrow> (Inl e, dataset', fs')
         | (Inr (kept, indices), fs') \<Rightarrow>
             (case build_new_metadata processed_dataset indices (result_path ps) of
                Inl e \<Rightarrow> (Inl e, dataset', fs')
              | Inr mf \<Rightarrow>
                  (Inr (set_filenames (processed_dataset\<lparr>metadata_file := mf\<rparr>) kept), dataset', fs')))"


text \<open>
  What the filter is to keep, in the words of its description: a repertoire all of whose
  sequences are of the chain \<^verbatim>\<open>keep_chain\<close> names (in upper case).
\<close>

definition single_chain :: "string \<Rightarrow> repertoire \<Rightarrow> bool" where
  "single_chain keep rep = list_all (\<lambda>s. metadata_chain s = Chain (upper keep)) (sequences rep)"

section \<open>source/workflows/processes/HPOptimizationProcess.py\<close>

subsection \<open>The objects the process handles\<close>

text \<open>
  A performance record is a dictionary from label name to metric value; metric values are
  real numbers here (the rounding of floating point is not modelled). A dictionary is an
  association list, and the subscript \<^verbatim>\<open>perf[label]\<close> is \<open>map_of perf label\<close>.
\<close>

type_synonym performance = "(string \<times> real) list"

text \<open>
  \<^verbatim>\<open>LabelConfiguration\<close> maps label names to their valid values;
  \<^verbatim>\<open>get_labels_by_name()\<close> lists the names.
\<close>

type_synonym label_configuration = "(string \<times> string list) list"

definition get_labels_by_name :: "label_configuration \<Rightarrow> string list" where
  "get_labels_by_name lc = map fst lc"

datatype pyval = PBool bool | PInt int | PStr string

text \<open>Encoders, learning methods and reports are objects of classes outside the modelled
  files; the process only passes them on. They are named handles.\<close>

type_synonym encoder = string
type_synonym MLMethod = string
type_synonym report = string

text \<open>\<^verbatim>\<open>HPSetting\<close>: the four attributes the process reads.\<close>

record hp_setting =
  hs_encoder :: encoder
  hs_encoder_params :: "(string \<times> pyval) list"
  hs_ml_method :: MLMethod
  hs_ml_params :: "(string \<times> pyval) list"

text \<open>The report lists of a \<^verbatim>\<open>SplitConfig\<close> (\<^verbatim>\<open>split_config.reports\<close>).\<close>

record report_config =
  data_split_reports :: "report list"
  data_reports :: "report list"
  model_reports :: "report list"
  optimal_model_reports :: "report list"
  performance_reports :: "report list"

text \<open>\<^verbatim>\<open>SplitConfig\<close>; \<open>split_strategy\<close> is the strategy's \<^verbatim>\<open>name\<close>, \<open>split_count\<close> a
  Python integer.\<close>

record split_config =
  split_strategy :: string
  split_count :: int
  training_percentage :: real
  label_to_balance :: "string option"
  reports :: report_config

text \<open>The parameter objects the process builds for its collaborators, field by field.\<close>

record data_splitter_params =
  dsp_dataset :: dataset
  dsp_split_strategy :: string
  dsp_split_count :: int
  dsp_training_percentage :: real
  dsp_label_to_balance :: "string option"

record encoder_params =
  ep_model :: "(string \<times> pyval) list"
  ep_result_path :: string
  ep_batch_size :: int
  ep_label_configuration :: label_configuration
  ep_learn_model :: bool
  ep_filename :: string

record data_encoder_params =
  dep_dataset :: dataset
  dep_encoder :: encoder
  dep_encoder_params :: encoder_params

record ml_method_trainer_params =
  mtp_method :: MLMethod
  mtp_result_path :: string
  mtp_dataset :: dataset
  mtp_labels :: "string list"
  mtp_model_selection_cv :: pyval
  mtp_model_selection_n_folds :: pyval
  mtp_cores_for_training :: int

record ml_method_assessment_params =
  map_method :: MLMethod
  map_dataset :: dataset
  map_predictions_path :: string
  map_all_predictions_path :: string
  map_ml_details_path :: string
  map_run :: nat
  map_label_configuration :: label_configuration
  map_metrics :: "string list"
  map_path :: string

record ml_process =
  mp_train_dataset :: dataset
  mp_test_dataset :: dataset
  mp_label_configuration :: label_configuration
  mp_encoder :: encoder
  mp_encoder_params :: "(string \<times> pyval) list"
  mp_method :: MLMethod
  mp_ml_params :: "(string \<times> pyval) list"
  mp_metrics :: "string list"
  mp_path :: string
  mp_reports :: "report list"

text \<open>
  The attributes \<^verbatim>\<open>__init__\<close> stores, but for \<^verbatim>\<open>hp_strategy\<close>: the strategy is the one
  object of the process whose state changes, and lives in the state below.
\<close>

record process_self =
  self_dataset :: dataset
  self_selection :: split_config
  self_hp_settings :: "hp_setting list"
  self_path :: string
  self_batch_size :: int
  self_label_configuration :: label_configuration
  self_metrics :: "string list"
  self_assessment :: split_config

definition HPOptimizationProcess_init ::
  "dataset \<Rightarrow> hp_setting list \<Rightarrow> split_config \<Rightarrow> split_config \<Rightarrow> string list \<Rightarrow> label_configuration \<Rightarrow>
   string \<Rightarrow> process_self" where
  "HPOptimizationProcess_init dataset hp_settings assessment selection metrics label_config pth =
     \<lparr> self_dataset = dataset,
       self_selection = selection,
       self_hp_settings = hp_settings,
       self_path = pth,
       self_batch_size = 10,
       self_label_configuration = label_config,
       self_metrics = metrics,
       self_assessment = assessment \<rparr>"

subsection \<open>Collaborators, the log of their calls, and the state\<close>

text \<open>
  One event per call that leaves the process, with the arguments passed. The calls of the
  search strategy also carry what the strategy answered.
\<close>

datatype event =
    PathBuilder_build string
  | DataSplitter_run data_splitter_params
  | Strategy_get_next_setting "(hp_setting \<times> performance) option" "error + hp_setting option"
  | Strategy_get_optimal_hps "error + hp_setting"
  | MLProcess_run ml_process nat
  | DataEncoder_run data_encoder_params
  | MLMethodTrainer_run ml_method_trainer_params
  | MLMethodAssessment_run ml_method_assessment_params
  | DataReport_generate report dataset string
  | MLReport_generate report dataset dataset MLMethod string

text \<open>
  The collaborators are parameters. The steps (split, encode, train, assess, the inner
  \<^verbatim>\<open>MLProcess\<close>) answer by their arguments and may raise; a report returns nothing and may
  raise; the search strategy is a stateful object with state \<open>'s\<close>. \<open>str_setting\<close> is
  \<^verbatim>\<open>HPSetting.__str__\<close> and \<open>str_float\<close> is \<^verbatim>\<open>str\<close> on a metric value.
\<close>

record 's env =
  splitter :: "data_splitter_params \<Rightarrow> error + dataset list \<times> dataset list"
  data_encoder :: "data_encoder_params \<Rightarrow> error + dataset"
  trainer :: "ml_method_trainer_params \<Rightarrow> error + MLMethod"
  assessor :: "ml_method_assessment_params \<Rightarrow> error + performance"
  inner_process :: "ml_process \<Rightarrow> nat \<Rightarrow> error + performance"
  next_setting :: "'s \<Rightarrow> (hp_setting \<times> performance) option \<Rightarrow> (error + hp_setting option) \<times> 's"
  optimal_hps :: "'s \<Rightarrow> (error + hp_setting) \<times> 's"
  data_report :: "report \<Rightarrow> dataset \<Rightarrow> string \<Rightarrow> error option"
  ml_report :: "report \<Rightarrow> dataset \<Rightarrow> dataset \<Rightarrow> MLMethod \<Rightarrow> string \<Rightarrow> error option"
  str_setting :: "hp_setting \<Rightarrow> string"
  str_float :: "real \<Rightarrow> string"

text \<open>The state a run threads: the strategy object, the calls made so far, and the lines
  printed to standard output.\<close>

record 's world =
  hp_strategy :: 's
  trace :: "event list"
  stdout :: "string list"

definition emit :: "event \<Rightarrow> 's world \<Rightarrow> 's world" where
  "emit ev w = w\<lparr>trace := trace w @ [ev]\<rparr>"

text \<open>The state after further calls \<open>evs\<close> have been logged.\<close>

definition logged :: "event list \<Rightarrow> 's world \<Rightarrow> 's world" where
  "logged evs w = w\<lparr>trace := trace w @ evs\<rparr>"

definition py_print :: "string \<Rightarrow> 's world \<Rightarrow> 's world" where
  "py_print line w = w\<lparr>stdout := stdout w @ [line]\<rparr>"

text \<open>A \<^verbatim>\<open>for\<close> loop whose body returns nothing: the first exception ends it.\<close>

fun for_each :: "('a \<Rightarrow> 'w \<Rightarrow> (error + unit) \<times> 'w) \<Rightarrow> 'a list \<Rightarrow> 'w \<Rightarrow> (error + unit) \<times> 'w" where
  "for_each body [] w = (Inr (), w)"
| "for_each body (x # xs) w =
     (case body x w of
        (Inl e, w') \<Rightarrow> (Inl e, w')
      | (Inr u, w') \<Rightarrow> for_each body xs w')"

text \<open>\<^verbatim>\<open>range(n)\<close> for a Python integer, and \<^verbatim>\<open>str\<close> on a natural number.\<close>

definition py_range :: "int \<Rightarrow> nat list" where
  "py_range n = [0..<nat n]"

fun str_nat :: "nat \<Rightarrow> string" where
  "str_nat n =
     (if n < 10 then [''0123456789'' ! n]
      else str_nat (n div 10) @ [''0123456789'' ! (n mod 10)])"

declare str_nat.simps [simp del]

definition PathBuilder_build_call :: "string \<Rightarrow> 's world \<Rightarrow> 's world" where
  "PathBuilder_build_call pth w = emit (PathBuilder_build pth) w"

definition get_next_setting ::
  "'s env \<Rightarrow> (hp_setting \<times> performance) option \<Rightarrow> 's world \<Rightarrow> (error + hp_setting option) \<times> 's world" where
  "get_next_setting E arg w =
     (case next_setting E (hp_strategy w) arg of
        (res, s') \<Rightarrow> (res, emit (Strategy_get_next_setting arg res) (w\<lparr>hp_strategy := s'\<rparr>)))"

definition get_optimal_hps :: "'s env \<Rightarrow> 's world \<Rightarrow> (error + hp_setting) \<times> 's world" where
  "get_optimal_hps E w =
     (case optimal_hps E (hp_strategy w) of
        (res, s') \<Rightarrow> (res, emit (Strategy_get_optimal_hps res) (w\<lparr>hp_strategy := s'\<rparr>)))"


subsection \<open>The methods of the process\<close>

text \<open>Each parameter object is built by a function of its own, so that the log can name
  it; the method that builds it then calls the collaborator with it.\<close>

definition DataSplitterParams :: "dataset \<Rightarrow> split_config \<Rightarrow> data_splitter_params" where
  "DataSplitterParams dataset cfg =
     \<lparr> dsp_dataset = dataset,
       dsp_split_strategy = split_strategy cfg,
       dsp_split_count = split_count cfg,
       dsp_training_percentage = training_percentage cfg,
       dsp_label_to_balance = label_to_balance cfg \<rparr>"

definition split_data ::
  "'s env \<Rightarrow> dataset \<Rightarrow> split_config \<Rightarrow> 's world \<Rightarrow> (error + dataset list \<times> dataset list) \<times> 's world" where
  "split_data E dataset cfg w =
     (splitter E (DataSplitterParams dataset cfg),
      emit (DataSplitter_run (DataSplitterParams dataset cfg)) w)"

text \<open>\<^verbatim>\<open>sum(perf[label] for perf in metrics_per_label)\<close>, from Python's start value 0; a
  record without the label raises \<^verbatim>\<open>KeyError\<close>.\<close>

fun sum_label :: "string \<Rightarrow> performance list \<Rightarrow> real \<Rightarrow> error + real" where
  "sum_label label [] acc = Inr acc"
| "sum_label label (perf # rest) acc =
     (case map_of perf label of
        None \<Rightarrow> Inl (KeyError label)
      | Some v \<Rightarrow> sum_label label rest (acc + v))"

text \<open>The quotient \<^verbatim>\<open>sum(...) / len(...)\<close>: the sum is evaluated first, then the division,
  which raises on an empty list.\<close>

definition mean_label :: "string \<Rightarrow> performance list \<Rightarrow> error + real" where
  "mean_label label metrics_per_label =
     (case sum_label label metrics_per_label 0 of
        Inl e \<Rightarrow> Inl e
      | Inr sm \<Rightarrow>
          if length metrics_per_label = 0 then Inl ZeroDivisionError
          else Inr (sm / real (length metrics_per_label)))"

text \<open>The dictionary comprehension of \<^verbatim>\<open>get_average_performance\<close>, label by label.\<close>

fun average_over :: "string list \<Rightarrow> performance list \<Rightarrow> error + performance" where
  "average_over [] metrics_per_label = Inr []"
| "average_over (label # rest) metrics_per_label =
     (case mean_label label metrics_per_label of
        Inl e \<Rightarrow> Inl e
      | Inr v \<Rightarrow>
          (case average_over rest metrics_per_label of
             Inl e \<Rightarrow> Inl e
           | Inr d \<Rightarrow> Inr ((label, v) # d)))"

definition get_average_performance :: "process_self \<Rightarrow> performance list \<Rightarrow> error + performance" where
  "get_average_performance self metrics_per_label =
     average_over (get_labels_by_name (self_label_configuration self)) metrics_per_label"

definition MLProcess_init ::
  "process_self \<Rightarrow> hp_setting \<Rightarrow> dataset \<Rightarrow> dataset \<Rightarrow> string \<Rightarrow> ml_process" where
  "MLProcess_init self hs train_dataset test_dataset pth =
     \<lparr> mp_train_dataset = train_dataset,
       mp_test_dataset = test_dataset,
       mp_label_configuration = self_label_configuration self,
       mp_encoder = hs_encoder hs,
       mp_encoder_params = hs_encoder_params hs,
       mp_method = hs_ml_method hs,
       mp_ml_params = hs_ml_params hs,
       mp_metrics = self_metrics self,
       mp_path = pth,
       mp_reports = model_reports (reports (self_selection self)) \<rparr>"

definition fold_path :: "'s env \<Rightarrow> hp_setting \<Rightarrow> nat \<Rightarrow> string \<Rightarrow> string" where
  "fold_path E hs run_id current_path =
     current_path @ str_setting E hs @ ''/fold_'' @ str_nat run_id @ ''/''"

definition run_setting ::
  "'s env \<Rightarrow> process_self \<Rightarrow> hp_setting \<Rightarrow> dataset \<Rightarrow> dataset \<Rightarrow> nat \<Rightarrow> string \<Rightarrow> 's world \<Rightarrow>
   (error + performance) \<times> 's world" where
  "run_setting E self hs train_dataset test_dataset run_id current_path w =
     (let pth = fold_path E hs run_id current_path;
          w1 = PathBuilder_build_call pth w;
          ml_process = MLProcess_init self hs train_dataset test_dataset pth
      in (inner_process E ml_process run_id, emit (MLProcess_run ml_process run_id) w1))"

text \<open>
  The loop of \<^verbatim>\<open>test_hp_setting\<close> over \<^verbatim>\<open>range(self.selection.split_count)\<close>; \<open>acc\<close> is
  \<^verbatim>\<open>fold_performances\<close>. A subscript beyond a list raises \<^verbatim>\<open>IndexError\<close>, the train list
  being read first.
\<close>

fun test_hp_setting_loop ::
  "'s env \<Rightarrow> process_self \<Rightarrow> hp_setting \<Rightarrow> dataset list \<Rightarrow> dataset list \<Rightarrow> string \<Rightarrow> nat list \<Rightarrow>
   performance list \<Rightarrow> 's world \<Rightarrow> (error + performance list) \<times> 's world" where
  "test_hp_setting_loop E self hs train_datasets test_datasets current_path [] acc w = (Inr acc, w)"
| "test_hp_setting_loop E self hs train_datasets test_datasets current_path (index # rest) acc w =
     (if length train_datasets \<le> index \<or> length test_datasets \<le> index then (Inl IndexError, w)
      else (case run_setting E self hs (train_datasets ! index) (test_datasets ! index) (index + 1)
                   current_path w of
              (Inl e, w') \<Rightarrow> (Inl e, w')
            | (Inr perf, w') \<Rightarrow>
                test_hp_setting_loop E self hs train_datasets test_datasets current_path rest
                  (acc @ [perf]) w'))"

definition test_hp_setting ::
  "'s env \<Rightarrow> process_self \<Rightarrow> hp_setting \<Rightarrow> dataset list \<Rightarrow> dataset list \<Rightarrow> string \<Rightarrow> 's world \<Rightarrow>
   (error + performance) \<times> 's world" where
  "test_hp_setting E self hs train_datasets test_datasets current_path w =
     (case test_hp_setting_loop E self hs train_datasets test_datasets current_path
             (py_range (split_count (self_selection self))) [] w of
        (Inl e, w') \<Rightarrow> (Inl e, w')
      | (Inr fold_performances, w') \<Rightarrow> (get_average_performance self fold_performances, w'))"

text \<open>The report runners: each copies the report, sets its attributes and calls
  \<^verbatim>\<open>generate_report\<close>; there is no handler around the call.\<close>

definition run_data_report ::
  "'s env \<Rightarrow> report \<Rightarrow> dataset \<Rightarrow> string \<Rightarrow> 's world \<Rightarrow> (error + unit) \<times> 's world" where
  "run_data_report E rep dataset pth w =
     (case data_report E rep dataset pth of
        Some e \<Rightarrow> (Inl e, emit (DataReport_generate rep dataset pth) w)
      | None \<Rightarrow> (Inr (), emit (DataReport_generate rep dataset pth) w))"

definition run_model_report ::
  "'s env \<Rightarrow> report \<Rightarrow> dataset \<Rightarrow> dataset \<Rightarrow> MLMethod \<Rightarrow> string \<Rightarrow> 's world \<Rightarrow> (error + unit) \<times> 's world" where
  "run_model_report E rep train_dataset test_dataset m pth w =
     (case ml_report E rep train_dataset test_dataset m pth of
        Some e \<Rightarrow> (Inl e, emit (MLReport_generate rep train_dataset test_dataset m pth) w)
      | None \<Rightarrow> (Inr (), emit (MLReport_generate rep train_dataset test_dataset m pth) w))"

definition run_performance_report ::
  "'s env \<Rightarrow> report \<Rightarrow> MLMethod \<Rightarrow> dataset \<Rightarrow> dataset \<Rightarrow> string \<Rightarrow> 's world \<Rightarrow> (error + unit) \<times> 's world" where
  "run_performance_report E rep m train_dataset test_dataset pth w = (Inl NotImplementedError, w)"

text \<open>The bodies of the two loops over \<^verbatim>\<open>data_split_reports\<close>: the report on the train
  part, then the report on the test part.\<close>

definition report_train_test ::
  "'s env \<Rightarrow> dataset \<Rightarrow> dataset \<Rightarrow> string \<Rightarrow> report \<Rightarrow> 's world \<Rightarrow> (error + unit) \<times> 's world" where
  "report_train_test E train_dataset test_dataset pth rep w =
     (case run_data_report E rep train_dataset (pth @ ''train/'') w of
        (Inl e, w1) \<Rightarrow> (Inl e, w1)
      | (Inr u, w1) \<Rightarrow> run_data_report E rep test_dataset (pth @ ''test/'') w1)"

definition report_split ::
  "'s env \<Rightarrow> dataset list \<Rightarrow> dataset list \<Rightarrow> string \<Rightarrow> report \<Rightarrow> nat \<Rightarrow> 's world \<Rightarrow>
   (error + unit) \<times> 's world" where
  "report_split E train_datasets test_datasets pth rep index w =
     (case run_data_report E rep (train_datasets ! index)
             (pth @ ''split_'' @ str_nat (index + 1) @ ''/train/'') w of
        (Inl e, w1) \<Rightarrow> (Inl e, w1)
      | (Inr u, w1) \<Rightarrow>
          if length test_datasets \<le> index then (Inl IndexError, w1)
          else run_data_report E rep (test_datasets ! index)
                 (pth @ ''split_'' @ str_nat (index + 1) @ ''/test/'') w1)"

definition run_assessment_reports ::
  "'s env \<Rightarrow> process_self \<Rightarrow> dataset \<Rightarrow> dataset \<Rightarrow> MLMethod \<Rightarrow> string \<Rightarrow> 's world \<Rightarrow> (error + unit) \<times> 's world" where
  "run_assessment_reports E self train_dataset test_dataset m pth w =
     (case for_each (report_train_test E train_dataset test_dataset pth)
             (data_split_reports (reports (self_assessment self))) w of
        (Inl e, w') \<Rightarrow> (Inl e, w')
      | (Inr u, w') \<Rightarrow>
          (case for_each (\<lambda>rep. run_model_report E rep train_dataset test_dataset m pth)
                  (optimal_model_reports (reports (self_assessment self))) w' of
             (Inl e, w'') \<Rightarrow> (Inl e, w'')
           | (Inr u, w'') \<Rightarrow>
               for_each (\<lambda>rep. run_performance_report E rep m train_dataset test_dataset pth)
                 (performance_reports (reports (self_assessment self))) w''))"

definition run_selection_reports ::
  "'s env \<Rightarrow> process_self \<Rightarrow> dataset \<Rightarrow> dataset list \<Rightarrow> dataset list \<Rightarrow> string \<Rightarrow> 's world \<Rightarrow>
   (error + unit) \<times> 's world" where
  "run_selection_reports E self dataset train_datasets test_datasets pth w =
     (case for_each
             (\<lambda>rep. for_each (report_split E train_datasets test_datasets pth rep)
                      (py_range (int (length train_datasets))))
             (data_split_reports (reports (self_selection self))) w of
        (Inl e, w') \<Rightarrow> (Inl e, w')
      | (Inr u, w') \<Rightarrow>
          for_each (\<lambda>rep. run_data_report E rep dataset pth)
            (data_reports (reports (self_selection self))) w')"

text \<open>
  \<^verbatim>\<open>train_optimal_method\<close>: the two subscripts of \<^verbatim>\<open>hp_setting.ml_params\<close> are evaluated
  while the parameter object is built, before the trainer is called.
\<close>

definition MLMethodTrainerParams ::
  "process_self \<Rightarrow> dataset \<Rightarrow> hp_setting \<Rightarrow> string \<Rightarrow> pyval \<Rightarrow> pyval \<Rightarrow> ml_method_trainer_params" where
  "MLMethodTrainerParams self dataset hs pth cv n_folds =
     \<lparr> mtp_method = hs_ml_method hs,
       mtp_result_path = pth @ ''/ml_method/'',
       mtp_dataset = dataset,
       mtp_labels = get_labels_by_name (self_label_configuration self),
       mtp_model_selection_cv = cv,
       mtp_model_selection_n_folds = n_folds,
       mtp_cores_for_training = - 1 \<rparr>"

definition train_optimal_method ::
  "'s env \<Rightarrow> process_self \<Rightarrow> dataset \<Rightarrow> hp_setting \<Rightarrow> string \<Rightarrow> 's world \<Rightarrow> (error + MLMethod) \<times> 's world" where
  "train_optimal_method E self dataset hs pth w =
     (case map_of (hs_ml_params hs) ''model_selection_cv'' of
        None \<Rightarrow> (Inl (KeyError ''model_selection_cv''), w)
      | Some cv \<Rightarrow>
          (case map_of (hs_ml_params hs) ''model_selection_n_folds'' of
             None \<Rightarrow> (Inl (KeyError ''model_selection_n_folds''), w)
           | Some n_folds \<Rightarrow>
               (trainer E (MLMethodTrainerParams self dataset hs pth cv n_folds),
                emit (MLMethodTrainer_run (MLMethodTrainerParams self dataset hs pth cv n_folds)) w)))"

definition DataEncoderParams ::
  "process_self \<Rightarrow> dataset \<Rightarrow> hp_setting \<Rightarrow> string \<Rightarrow> bool \<Rightarrow> data_encoder_params" where
  "DataEncoderParams self dataset hs pth learn_model =
     \<lparr> dep_dataset = dataset,
       dep_encoder = hs_encoder hs,
       dep_encoder_params =
         \<lparr> ep_model = hs_encoder_params hs,
           ep_result_path = pth,
           ep_batch_size = self_batch_size self,
           ep_label_configuration = self_label_configuration self,
           ep_learn_model = learn_model,
           ep_filename = (if learn_model then ''train_dataset.pkl'' else ''test_dataset.pkl'') \<rparr> \<rparr>"

definition encode_dataset ::
  "'s env \<Rightarrow> process_self \<Rightarrow> dataset \<Rightarrow> hp_setting \<Rightarrow> string \<Rightarrow> bool \<Rightarrow> 's world \<Rightarrow> (error + dataset) \<times> 's world" where
  "encode_dataset E self dataset hs pth learn_model w =
     (data_encoder E (DataEncoderParams self dataset hs pth learn_model),
      emit (DataEncoder_run (DataEncoderParams self dataset hs pth learn_model)) w)"

definition MLMethodAssessmentParams ::
  "process_self \<Rightarrow> MLMethod \<Rightarrow> dataset \<Rightarrow> nat \<Rightarrow> string \<Rightarrow> ml_method_assessment_params" where
  "MLMethodAssessmentParams self optimal_method dataset run current_path =
     \<lparr> map_method = optimal_method,
       map_dataset = dataset,
       map_predictions_path = current_path @ ''predictions.csv'',
       map_all_predictions_path =
         self_path self @ ''assessment_'' @ split_strategy (self_assessment self) @
         ''/all_predictions.csv'',
       map_ml_details_path = current_path @ ''ml_details.csv'',
       map_run = run,
       map_label_configuration = self_label_configuration self,
       map_metrics = self_metrics self,
       map_path = current_path \<rparr>"

definition assess_performance ::
  "'s env \<Rightarrow> process_self \<Rightarrow> MLMethod \<Rightarrow> dataset \<Rightarrow> nat \<Rightarrow> string \<Rightarrow> 's world \<Rightarrow> (error + performance) \<times> 's world" where
  "assess_performance E self optimal_method dataset run current_path w =
     (assessor E (MLMethodAssessmentParams self optimal_method dataset run current_path),
      emit (MLMethodAssessment_run
              (MLMethodAssessmentParams self optimal_method dataset run current_path)) w)"

text \<open>
  The \<^verbatim>\<open>while hp_setting is not None\<close> loop of \<^verbatim>\<open>run_selection\<close>. How often it runs is up
  to the strategy, so the model counts the iterations down from \<open>fuel\<close>: \<open>None\<close> is a loop
  that has not ended within \<open>fuel\<close> iterations.
\<close>

fun selection_loop ::
  "nat \<Rightarrow> 's env \<Rightarrow> process_self \<Rightarrow> dataset list \<Rightarrow> dataset list \<Rightarrow> string \<Rightarrow> hp_setting option \<Rightarrow>
   's world \<Rightarrow> ((error + unit) \<times> 's world) option" where
  "selection_loop fuel E self train_datasets test_datasets pth None w = Some (Inr (), w)"
| "selection_loop 0 E self train_datasets test_datasets pth (Some hs) w = None"
| "selection_loop (Suc fuel) E self train_datasets test_datasets pth (Some hs) w =
     (case test_hp_setting E self hs train_datasets test_datasets pth w of
        (Inl e, w') \<Rightarrow> Some (Inl e, w')
      | (Inr perf, w') \<Rightarrow>
          (case get_next_setting E (Some (hs, perf)) w' of
             (Inl e, w'') \<Rightarrow> Some (Inl e, w'')
           | (Inr nxt, w'') \<Rightarrow> selection_loop fuel E self train_datasets test_datasets pth nxt w''))"

definition selection_path :: "process_self \<Rightarrow> string \<Rightarrow> string" where
  "selection_path self current_path =
     current_path @ ''selection_'' @ split_strategy (self_selection self) @ ''/''"

definition run_selection ::
  "nat \<Rightarrow> 's env \<Rightarrow> process_self \<Rightarrow> dataset \<Rightarrow> string \<Rightarrow> 's world \<Rightarrow> ((error + hp_setting) \<times> 's world) option" where
  "run_selection fuel E self train_dataset current_path w =
     (case split_data E train_dataset (self_selection self) w of
        (Inl e, w1) \<Rightarrow> Some (Inl e, w1)
      | (Inr (train_datasets, test_datasets), w1) \<Rightarrow>
          (let pth = selection_path self current_path;
               w2 = PathBuilder_build_call pth w1
           in case get_next_setting E None w2 of
                (Inl e, w3) \<Rightarrow> Some (Inl e, w3)
              | (Inr hs, w3) \<Rightarrow>
                  (case selection_loop fuel E self train_datasets test_datasets pth hs w3 of
                     None \<Rightarrow> None
                   | Some (Inl e, w4) \<Rightarrow> Some (Inl e, w4)
                   | Some (Inr u, w4) \<Rightarrow>
                       (case run_selection_reports E self train_dataset train_datasets test_datasets
                               (pth @ ''reports/'') w4 of
                          (Inl e, w5) \<Rightarrow> Some (Inl e, w5)
                        | (Inr u', w5) \<Rightarrow> Some (get_optimal_hps E w5)))))"

text \<open>The statements of \<^verbatim>\<open>run_assessment_fold\<close> that follow the call of \<^verbatim>\<open>run_selection\<close>.\<close>

definition assess_optimal ::
  "'s env \<Rightarrow> process_self \<Rightarrow> dataset \<Rightarrow> dataset \<Rightarrow> nat \<Rightarrow> string \<Rightarrow> hp_setting \<Rightarrow> 's world \<Rightarrow>
   (error + performance) \<times> 's world" where
  "assess_optimal E self train_dataset test_dataset run current_path optimal_hp_setting w =
     (case encode_dataset E self train_dataset optimal_hp_setting current_path True w of
        (Inl e, w1) \<Rightarrow> (Inl e, w1)
      | (Inr encoded_train_dataset, w1) \<Rightarrow>
          (case train_optimal_method E self encoded_train_dataset optimal_hp_setting
                  (current_path @ ''optimal/'') w1 of
             (Inl e, w2) \<Rightarrow> (Inl e, w2)
           | (Inr optimal_method, w2) \<Rightarrow>
               (case encode_dataset E self test_dataset optimal_hp_setting current_path False w2 of
                  (Inl e, w3) \<Rightarrow> (Inl e, w3)
                | (Inr encoded_test_dataset, w3) \<Rightarrow>
                    (case assess_performance E self optimal_method encoded_test_dataset run
                            current_path w3 of
                       (Inl e, w4) \<Rightarrow> (Inl e, w4)
                     | (Inr perf, w4) \<Rightarrow>
                         (case run_assessment_reports E self train_dataset test_dataset optimal_method
                                 (current_path @ ''reports/'') w4 of
                            (Inl e, w5) \<Rightarrow> (Inl e, w5)
                          | (Inr u, w5) \<Rightarrow> (Inr perf, w5))))))"

definition assessment_path :: "process_self \<Rightarrow> nat \<Rightarrow> string" where
  "assessment_path self run =
     self_path self @ ''assessment_'' @ split_strategy (self_assessment self) @ ''/run_'' @
     str_nat run @ ''/''"

definition run_assessment_fold ::
  "nat \<Rightarrow> 's env \<Rightarrow> process_self \<Rightarrow> dataset \<Rightarrow> dataset \<Rightarrow> nat \<Rightarrow> 's world \<Rightarrow>
   ((error + performance) \<times> 's world) option" where
  "run_assessment_fold fuel E self train_dataset test_dataset run w =
     (let current_path = assessment_path self run;
          w0 = PathBuilder_build_call current_path w
      in case run_selection fuel E self train_dataset current_path w0 of
           None \<Rightarrow> None
         | Some (Inl e, w1) \<Rightarrow> Some (Inl e, w1)
         | Some (Inr optimal_hp_setting, w1) \<Rightarrow>
             Some (assess_optimal E self train_dataset test_dataset run current_path
                     optimal_hp_setting w1))"

text \<open>\<^verbatim>\<open>print_performances\<close>: the lines are printed one by one, so the lines before an
  exception stay printed.\<close>

definition tab :: string where
  "tab = [CHR 0x09]"

fun row_cells :: "'s env \<Rightarrow> string list \<Rightarrow> performance \<Rightarrow> string \<Rightarrow> error + string" where
  "row_cells E [] perf row = Inr row"
| "row_cells E (label # rest) perf row =
     (case map_of perf label of
        None \<Rightarrow> Inl (KeyError label)
      | Some v \<Rightarrow> row_cells E rest perf (row @ str_float E v @ tab))"

definition print_performances ::
  "'s env \<Rightarrow> process_self \<Rightarrow> performance list \<Rightarrow> 's world \<Rightarrow> (error + unit) \<times> 's world" where
  "print_performances E self performances w =
     (let names = get_labels_by_name (self_label_configuration self);
          w1 = py_print ''------ Assessment scores (balanced accuracy) per label ------'' w;
          header = foldl (\<lambda>h label. h @ label @ tab) (''run'' @ tab) names;
          w2 = py_print header w1
      in case for_each
                (\<lambda>(index, perf) w0.
                   case row_cells E names perf (str_nat (index + 1) @ tab) of
                     Inl e \<Rightarrow> (Inl e, w0)
                   | Inr row \<Rightarrow> (Inr (), py_print row w0))
                (enumerate 0 performances) w2 of
           (Inl e, w3) \<Rightarrow> (Inl e, w3)
         | (Inr u, w3) \<Rightarrow>
             for_each
               (\<lambda>label w0.
                  case mean_label label performances of
                    Inl e \<Rightarrow> (Inl e, w0)
                  | Inr v \<Rightarrow>
                      (Inr (), py_print (''Label: '' @ label @ '', average balanced accuracy: '' @
                                         str_float E v) w0))
               names
               (py_print ''--------------------------------------------------------------'' w3))"

text \<open>The loop of \<^verbatim>\<open>run_assessment\<close> over \<^verbatim>\<open>range(self.assessment.split_count)\<close>; \<open>acc\<close> is
  \<^verbatim>\<open>fold_performances\<close>.\<close>

fun assessment_loop ::
  "nat \<Rightarrow> 's env \<Rightarrow> process_self \<Rightarrow> dataset list \<Rightarrow> dataset list \<Rightarrow> nat list \<Rightarrow> performance list \<Rightarrow>
   's world \<Rightarrow> ((error + performance list) \<times> 's world) option" where
  "assessment_loop fuel E self train_datasets test_datasets [] acc w = Some (Inr acc, w)"
| "assessment_loop fuel E self train_datasets test_datasets (index # rest) acc w =
     (if length train_datasets \<le> index \<or> length test_datasets \<le> index then Some (Inl IndexError, w)
      else (case run_assessment_fold fuel E self (train_datasets ! index) (test_datasets ! index)
                   (index + 1) w of
              None \<Rightarrow> None
            | Some (Inl e, w') \<Rightarrow> Some (Inl e, w')
            | Some (Inr perf, w') \<Rightarrow>
                assessment_loop fuel E self train_datasets test_datasets rest (acc @ [perf]) w'))"

definition run_assessment ::
  "nat \<Rightarrow> 's env \<Rightarrow> process_self \<Rightarrow> 's world \<Rightarrow> ((error + performance list) \<times> 's world) option" where
  "run_assessment fuel E self w =
     (case split_data E (self_dataset self) (self_assessment self) w of
        (Inl e, w1) \<Rightarrow> Some (Inl e, w1)
      | (Inr (train_datasets, test_datasets), w1) \<Rightarrow>
          (case assessment_loop fuel E self train_datasets test_datasets
                  (py_range (split_count (self_assessment self))) [] w1 of
             None \<Rightarrow> None
           | Some (Inl e, w2) \<Rightarrow> Some (Inl e, w2)
           | Some (Inr fold_performances, w2) \<Rightarrow>
               (case print_performances E self fold_performances w2 of
                  (Inl e, w3) \<Rightarrow> Some (Inl e, w3)
                | (Inr u, w3) \<Rightarrow> Some (Inr fold_performances, w3))))"

definition run :: "nat \<Rightarrow> 's env \<Rightarrow> process_self \<Rightarrow> 's world \<Rightarrow> ((error + performance list) \<times> 's world) option" where
  "run fuel E self w = run_assessment fuel E self w"


subsection \<open>The protocol of the search strategy, as the design states it\<close>






subsection \<open>Reading the log of an outer fold\<close>

text \<open>
  The steps the design numbers for an outer fold, as kinds of logged calls: everything the
  selection does is \<open>Selecting\<close>; an encoder call is \<open>EncodeLearn\<close> or \<open>EncodeApply\<close> by its
  \<^verbatim>\<open>learn_model\<close> flag.
\<close>

datatype step = Selecting | EncodeLearn | Train | EncodeApply | Assess | Report

fun step_of :: "event \<Rightarrow> step" where
  "step_of (DataEncoder_run ps) =
     (if ep_learn_model (dep_encoder_params ps) then EncodeLearn else EncodeApply)"
| "step_of (MLMethodTrainer_run ps) = Train"
| "step_of (MLMethodAssessment_run ps) = Assess"
| "step_of (DataReport_generate rep dataset p) = Report"
| "step_of (MLReport_generate rep train_dataset test_dataset m p) = Report"
| "step_of ev = Selecting"

text \<open>The datasets a logged call was given.\<close>

fun event_datasets :: "event \<Rightarrow> dataset list" where
  "event_datasets (DataSplitter_run ps) = [dsp_dataset ps]"
| "event_datasets (MLProcess_run ml run_id) = [mp_train_dataset ml, mp_test_dataset ml]"
| "event_datasets (DataEncoder_run ps) = [dep_dataset ps]"
| "event_datasets (MLMethodTrainer_run ps) = [mtp_dataset ps]"
| "event_datasets (MLMethodAssessment_run ps) = [map_dataset ps]"
| "event_datasets (DataReport_generate rep dataset p) = [dataset]"
| "event_datasets (MLReport_generate rep train_dataset test_dataset m p) = [train_dataset, test_dataset]"
| "event_datasets ev = []"

text \<open>The inner folds of a training fold: what the splitter answers for it under the
  selection configuration (nothing when the splitter raises).\<close>

definition inner_folds :: "'s env \<Rightarrow> process_self \<Rightarrow> dataset \<Rightarrow> dataset list" where
  "inner_folds E self train_dataset =
     (case splitter E (DataSplitterParams train_dataset (self_selection self)) of
        Inl e \<Rightarrow> []
      | Inr (train_datasets, test_datasets) \<Rightarrow> train_datasets @ test_datasets)"

subsection \<open>The summary on standard output, and strategies that exhaust\<close>





section \<open>Concrete inputs\<close>

text \<open>A chain enumeration with the members \<^verbatim>\<open>A\<close> and \<^verbatim>\<open>B\<close>, two pickled repertoires in
  a directory \<^verbatim>\<open>in/\<close>, and a dataset over them; then a dataset whose one file already
  lies in the result directory under the name the filter gives it.\<close>

definition ex_members :: "string list" where
  "ex_members = [''A'', ''B'']"

definition ex_seq :: "string \<Rightarrow> receptor_sequence" where
  "ex_seq c = \<lparr> amino_acid_sequence = ''AAA'', metadata_chain = Chain c \<rparr>"

definition ex_disk :: disk where
  "ex_disk = [''in/r1.pkl'' \<mapsto> \<lparr> rep_identifier = ''r1'', sequences = [ex_seq ''A'', ex_seq ''A''] \<rparr>,
              ''in/r2.pkl'' \<mapsto> \<lparr> rep_identifier = ''r2'', sequences = [ex_seq ''A'', ex_seq ''B''] \<rparr>]"

definition ex_dataset :: dataset where
  "ex_dataset = Dataset_init ''uuid'' None None None (Some [''in/r2.pkl'', ''in/r1.pkl'']) (Some ''d1'')
                  (Some ''in/metadata.csv'')"

definition ex_build_new_metadata :: "dataset \<Rightarrow> nat list \<Rightarrow> string \<Rightarrow> error + string option" where
  "ex_build_new_metadata d indices pth = Inr (Some (pth @ ''metadata.csv''))"

definition ex_same_dir_disk :: disk where
  "ex_same_dir_disk = [''out/r1.pickle'' \<mapsto> \<lparr> rep_identifier = ''r1'', sequences = [ex_seq ''A''] \<rparr>]"

definition ex_same_dir_dataset :: dataset where
  "ex_same_dir_dataset = Dataset_init ''uuid'' None None None (Some [''out/r1.pickle'']) (Some ''d1'') None"


text \<open>
  Modelled from the spec: the grid-search variant of the Search Strategy, whose class is
  not among the modelled files. It enumerates its candidates once each, records the
  feedback of each and ignores its content until the optimum is asked for; the optimum is
  the recorded setting with the highest primary metric, the first seen on a tie, and asking
  for it before the candidates are exhausted is an \<^verbatim>\<open>IllegalStateError\<close>. The primary
  metric of a record is taken to be its first entry. The state is the candidates not yet
  evaluated and the feedback recorded so far.
\<close>

record grid_search =
  remaining :: "hp_setting list"
  recorded :: "(hp_setting \<times> performance) list"

definition GridSearch_init :: "hp_setting list \<Rightarrow> grid_search" where
  "GridSearch_init candidates = \<lparr> remaining = candidates, recorded = [] \<rparr>"

definition first_remaining :: "grid_search \<Rightarrow> hp_setting option" where
  "first_remaining s = (case remaining s of [] \<Rightarrow> None | c # cs \<Rightarrow> Some c)"

definition GridSearch_get_next_setting ::
  "grid_search \<Rightarrow> (hp_setting \<times> performance) option \<Rightarrow> (error + hp_setting option) \<times> grid_search" where
  "GridSearch_get_next_setting s arg =
     (case arg of
        None \<Rightarrow> (Inr (first_remaining s), s)
      | Some (hs, perf) \<Rightarrow>
          (let s' = s\<lparr> remaining := remove1 hs (remaining s), recorded := recorded s @ [(hs, perf)] \<rparr>
           in (Inr (first_remaining s'), s')))"

definition primary_metric :: "performance \<Rightarrow> real" where
  "primary_metric perf = (case perf of [] \<Rightarrow> 0 | (label, v) # rest \<Rightarrow> v)"

fun best_recorded :: "hp_setting \<times> performance \<Rightarrow> (hp_setting \<times> performance) list \<Rightarrow> hp_setting" where
  "best_recorded best [] = fst best"
| "best_recorded best (x # xs) =
     (if primary_metric (snd best) < primary_metric (snd x) then best_recorded x xs
      else best_recorded best xs)"

definition GridSearch_get_optimal_hps :: "grid_search \<Rightarrow> (error + hp_setting) \<times> grid_search" where
  "GridSearch_get_optimal_hps s =
     (if remaining s \<noteq> [] then (Inl (Raised ''IllegalStateError''), s)
      else (case recorded s of
              [] \<Rightarrow> (Inl (Raised ''IllegalStateError''), s)
            | x # xs \<Rightarrow> (Inr (best_recorded x xs), s)))"

text \<open>
  A run in the small: a dataset \<^verbatim>\<open>d\<close> split into two outer folds \<^verbatim>\<open>A\<close> and \<^verbatim>\<open>B\<close> with
  the test folds \<^verbatim>\<open>tA\<close> and \<^verbatim>\<open>tB\<close>, in the order \<open>outer\<close> gives; every other dataset is
  split once into its own train and test part. There is one label and there are two
  candidate settings, which differ in the encoder. On the inner folds of \<^verbatim>\<open>A\<close> the
  encoder \<^verbatim>\<open>e1\<close> scores higher, on those of \<^verbatim>\<open>B\<close> the encoder \<^verbatim>\<open>e2\<close>; on an outer test
  fold a method trained on \<^verbatim>\<open>e1\<close> features scores 0.8 and one trained on \<^verbatim>\<open>e2\<close>
  features 0.6. The reports named in \<open>failing\<close> raise, the others return.
\<close>

definition ex_ds :: "string \<Rightarrow> dataset" where
  "ex_ds name = \<lparr> data = None, params = None, encoded = None, dataset_id = name, filenames = [],
                   metadata_file = None \<rparr>"

definition ex_setting :: "string \<Rightarrow> hp_setting" where
  "ex_setting enc =
     \<lparr> hs_encoder = enc, hs_encoder_params = [], hs_ml_method = ''simpleLR'',
       hs_ml_params = [(''model_selection_cv'', PBool False), (''model_selection_n_folds'', PInt (- 1))] \<rparr>"

definition ex_splitter ::
  "string list \<Rightarrow> data_splitter_params \<Rightarrow> error + dataset list \<times> dataset list" where
  "ex_splitter outer ps =
     (if dataset_id (dsp_dataset ps) = ''d''
      then Inr (map ex_ds outer, map (\<lambda>n. ex_ds (''t'' @ n)) outer)
      else Inr ([ex_ds (dataset_id (dsp_dataset ps) @ ''.train'')],
                [ex_ds (dataset_id (dsp_dataset ps) @ ''.test'')]))"

definition ex_inner_process :: "ml_process \<Rightarrow> nat \<Rightarrow> error + performance" where
  "ex_inner_process ml run_id =
     Inr [(''CD'', if (dataset_id (mp_train_dataset ml) = ''A.train'') = (mp_encoder ml = ''e1'')
                  then 9 / 10 else 1 / 2)]"

definition ex_data_encoder :: "data_encoder_params \<Rightarrow> error + dataset" where
  "ex_data_encoder ps =
     Inr ((dep_dataset ps)\<lparr> encoded :=
            Some \<lparr> examples = [], labels = [], feature_names = [dep_encoder ps] \<rparr> \<rparr>)"

definition ex_trainer :: "ml_method_trainer_params \<Rightarrow> error + MLMethod" where
  "ex_trainer ps = Inr (mtp_method ps @ '' fitted on '' @ dataset_id (mtp_dataset ps))"

definition ex_assessor :: "ml_method_assessment_params \<Rightarrow> error + performance" where
  "ex_assessor ps =
     Inr [(''CD'', if map_option feature_names (encoded (map_dataset ps)) = Some [''e1'']
                  then 4 / 5 else 3 / 5)]"

definition ex_str_float :: "real \<Rightarrow> string" where
  "ex_str_float x = (if x = 4 / 5 then ''0.8'' else if x = 3 / 5 then ''0.6'' else ''0.7'')"

definition ex_env :: "string list \<Rightarrow> report list \<Rightarrow> grid_search env" where
  "ex_env outer failing =
     \<lparr> splitter = ex_splitter outer,
       data_encoder = ex_data_encoder,
       trainer = ex_trainer,
       assessor = ex_assessor,
       inner_process = ex_inner_process,
       next_setting = GridSearch_get_next_setting,
       optimal_hps = GridSearch_get_optimal_hps,
       data_report = (\<lambda>rep dataset pth. if rep \<in> set failing then Some (Raised ''ReportGenerationError'') else None),
       ml_report = (\<lambda>rep train_dataset test_dataset m pth.
                      if rep \<in> set failing then Some (Raised ''ReportGenerationError'') else None),
       str_setting = (\<lambda>hs. hs_encoder hs @ ''_'' @ hs_ml_method hs),
       str_float = ex_str_float \<rparr>"

definition ex_reports :: "report list \<Rightarrow> report_config" where
  "ex_reports reps =
     \<lparr> data_split_reports = reps, data_reports = [], model_reports = [],
       optimal_model_reports = [], performance_reports = [] \<rparr>"

definition ex_config :: "int \<Rightarrow> report list \<Rightarrow> split_config" where
  "ex_config n reps =
     \<lparr> split_strategy = ''random'', split_count = n, training_percentage = 7 / 10,
       label_to_balance = None, reports = ex_reports reps \<rparr>"

definition ex_process :: "report list \<Rightarrow> process_self" where
  "ex_process reps =
     HPOptimizationProcess_init (ex_ds ''d'') [ex_setting ''e1'', ex_setting ''e2'']
       (ex_config 2 reps) (ex_config 1 []) [''accuracy''] [(''CD'', [''True'', ''False''])] ''out/''"

definition ex_world :: "grid_search world" where
  "ex_world = \<lparr> hp_strategy = GridSearch_init [ex_setting ''e1'', ex_setting ''e2''], trace = [],
                stdout = [] \<rparr>"





section \<open>Properties of Dataset\<close>

lemma sort_strings_id: "sorted (fs :: string list) \<Longrightarrow> sort fs = fs"
  by (rule sort_key_id_if_sorted) simp

text \<open>
  Claim C9. The filename list of a dataset is kept sorted. The constructor stores the
  sorted filename list (the empty list when none is passed), \<^verbatim>\<open>set_filenames\<close> stores the
  sorted list, \<^verbatim>\<open>get_filenames\<close> returns what is stored, the two other setters leave the list
  alone, and \<^verbatim>\<open>get_data\<close> builds its generator from the sorted list whatever the stored
  list was, leaving the sorted list stored.
\<close>

theorem dataset_filenames_sorted:
  "get_filenames (Dataset_init u dat ps enc (Some fns) ident mf) = sort fns
   \<and> sorted (get_filenames (Dataset_init u dat ps enc (Some fns) ident mf))
   \<and> get_filenames (Dataset_init u dat ps enc None ident mf) = []
   \<and> get_filenames (set_filenames d fns) = sort fns
   \<and> sorted (get_filenames (set_filenames d fns))
   \<and> get_filenames (add_data d x) = get_filenames d
   \<and> get_filenames (add_encoded_data d y) = get_filenames d
   \<and> fst (snd (get_data d bs)) = sort (filenames d)
   \<and> sorted (fst (snd (get_data d bs)))
   \<and> set (fst (snd (get_data d bs))) = set (filenames d)
   \<and> length (fst (snd (get_data d bs))) = length (filenames d)
   \<and> get_filenames (fst (get_data d bs)) = sort (filenames d)"
  by (simp add: get_filenames_def Dataset_init_def set_filenames_def add_data_def
      add_encoded_data_def get_data_def Let_def)

theorem dataset_filenames_sorted_witness:
  "get_filenames (Dataset_init ''u1'' None None None (Some [''b/r2.pkl'', ''a/r1.pkl'', ''a/r10.pkl''])
      None None) = [''a/r1.pkl'', ''a/r10.pkl'', ''b/r2.pkl'']
   \<and> get_filenames (Dataset_init ''u1'' None None None None None None) = []"
  using dataset_filenames_sorted [of "''u1''" None None None "[''b/r2.pkl'', ''a/r1.pkl'', ''a/r10.pkl'']" None None]
  by simp


section \<open>Properties of DatasetChainFilter\<close>

lemma all_chain_Inr:
  "all_chain members keep ss = Inr b \<Longrightarrow> b = list_all (\<lambda>s. metadata_chain s = Chain (upper keep)) ss"
  by (induction ss arbitrary: b) (auto simp: Chain_getitem_def split: if_splits sum.splits)

lemma os_rename_Inr:
  "os_rename src dst fs = Inr fs' \<Longrightarrow> \<exists>c. fs src = Some c \<and> fs' = (fs(src := None))(dst \<mapsto> c)"
  by (auto simp: os_rename_def split: option.splits)

lemma process_loop_Inr:
  "process_loop members ps fns pairs kept indices fs = (Inr (kept', indices'), fs') \<Longrightarrow>
   \<forall>(i, f) \<in> set pairs. i < length fns \<and> fns ! i = f \<Longrightarrow>
   \<exists>reps. length reps = length pairs
     \<and> kept' = kept @ map (new_filename ps) (filter (single_chain (keep_chain ps)) reps)
     \<and> indices' = indices @ map fst (map fst (filter (\<lambda>(p, r). single_chain (keep_chain ps) r) (zip pairs reps)))
     \<and> (\<forall>j < length pairs.
           snd (pairs ! j) \<notin> snd ` set (take j pairs) \<longrightarrow>
           snd (pairs ! j) \<notin> set (map (new_filename ps) (filter (single_chain (keep_chain ps)) (take j reps))) \<longrightarrow>
           fs (snd (pairs ! j)) = Some (reps ! j))
     \<and> (\<forall>j < length pairs.
           single_chain (keep_chain ps) (reps ! j) \<longrightarrow>
           snd (pairs ! j) \<notin> set (map (new_filename ps) (filter (single_chain (keep_chain ps)) reps)) \<longrightarrow>
           fs' (snd (pairs ! j)) = None)
     \<and> (\<forall>p. fs p = None \<longrightarrow>
           p \<notin> set (map (new_filename ps) (filter (single_chain (keep_chain ps)) reps)) \<longrightarrow>
           fs' p = None)"
proof (induction pairs arbitrary: kept indices fs)
  case Nil
  then show ?case by simp
next
  case (Cons pr rest)
  obtain index fl where pr: "pr = (index, fl)" by (cases pr)
  from Cons.prems(2) pr have idx: "index < length fns" "fns ! index = fl"
    and restok: "\<forall>(i, f) \<in> set rest. i < length fns \<and> fns ! i = f" by auto
  from Cons.prems(1) pr obtain rep where rep: "fs fl = Some rep"
    by (auto split: option.splits)
  from Cons.prems(1) pr rep obtain b where b: "all_chain members (keep_chain ps) (sequences rep) = Inr b"
    by (auto split: sum.splits)
  have bk: "b = single_chain (keep_chain ps) rep"
    using all_chain_Inr [OF b] by (simp add: single_chain_def)
  show ?case
  proof (cases b)
    case False
    with Cons.prems(1) pr rep b
    have run: "process_loop members ps fns rest kept indices fs = (Inr (kept', indices'), fs')"
      by simp
    from Cons.IH [OF run restok] obtain reps where R:
      "length reps = length rest"
      "kept' = kept @ map (new_filename ps) (filter (single_chain (keep_chain ps)) reps)"
      "indices' = indices @ map fst (map fst (filter (\<lambda>(p, r). single_chain (keep_chain ps) r) (zip rest reps)))"
      "\<forall>j < length rest.
           snd (rest ! j) \<notin> snd ` set (take j rest) \<longrightarrow>
           snd (rest ! j) \<notin> set (map (new_filename ps) (filter (single_chain (keep_chain ps)) (take j reps))) \<longrightarrow>
           fs (snd (rest ! j)) = Some (reps ! j)"
      "\<forall>j < length rest.
           single_chain (keep_chain ps) (reps ! j) \<longrightarrow>
           snd (rest ! j) \<notin> set (map (new_filename ps) (filter (single_chain (keep_chain ps)) reps)) \<longrightarrow>
           fs' (snd (rest ! j)) = None"
      "\<forall>p. fs p = None \<longrightarrow>
           p \<notin> set (map (new_filename ps) (filter (single_chain (keep_chain ps)) reps)) \<longrightarrow>
           fs' p = None"
      by blast
    have nk: "\<not> single_chain (keep_chain ps) rep" using bk False by simp
    show ?thesis
    proof (intro exI [of _ "rep # reps"] conjI allI impI)
      show "length (rep # reps) = length (pr # rest)" using R(1) by simp
      show "kept' = kept @ map (new_filename ps) (filter (single_chain (keep_chain ps)) (rep # reps))"
        using R(2) nk by simp
      show "indices' = indices @ map fst (map fst (filter (\<lambda>(p, r). single_chain (keep_chain ps) r) (zip (pr # rest) (rep # reps))))"
        using R(3) nk by simp
    next
      fix j
      assume j: "j < length (pr # rest)"
        and a: "snd ((pr # rest) ! j) \<notin> snd ` set (take j (pr # rest))"
        and c: "snd ((pr # rest) ! j) \<notin> set (map (new_filename ps) (filter (single_chain (keep_chain ps)) (take j (rep # reps))))"
      show "fs (snd ((pr # rest) ! j)) = Some ((rep # reps) ! j)"
      proof (cases j)
        case 0
        then show ?thesis using rep pr by simp
      next
        case (Suc k)
        with j a c nk R(4) show ?thesis by simp
      qed
    next
      fix j
      assume j: "j < length (pr # rest)"
        and a: "single_chain (keep_chain ps) ((rep # reps) ! j)"
        and c: "snd ((pr # rest) ! j) \<notin> set (map (new_filename ps) (filter (single_chain (keep_chain ps)) (rep # reps)))"
      show "fs' (snd ((pr # rest) ! j)) = None"
      proof (cases j)
        case 0
        then show ?thesis using a nk by simp
      next
        case (Suc k)
        with j a c nk R(5) show ?thesis by simp
      qed
    next
      fix p
      assume "fs p = None"
        and "p \<notin> set (map (new_filename ps) (filter (single_chain (keep_chain ps)) (rep # reps)))"
      then show "fs' p = None" using R(6) nk by simp
    qed
  next
    case True
    with Cons.prems(1) pr rep b idx obtain fs1 where
      ren: "os_rename fl (new_filename ps rep) fs = Inr fs1" and
      run: "process_loop members ps fns rest (kept @ [new_filename ps rep]) (indices @ [index]) fs1
              = (Inr (kept', indices'), fs')"
      by (auto simp: Let_def split: sum.splits)
    from os_rename_Inr [OF ren] rep
    have fs1: "fs1 = (fs(fl := None))(new_filename ps rep \<mapsto> rep)" by auto
    from Cons.IH [OF run restok] obtain reps where R:
      "length reps = length rest"
      "kept' = (kept @ [new_filename ps rep]) @ map (new_filename ps) (filter (single_chain (keep_chain ps)) reps)"
      "indices' = (indices @ [index]) @ map fst (map fst (filter (\<lambda>(p, r). single_chain (keep_chain ps) r) (zip rest reps)))"
      "\<forall>j < length rest.
           snd (rest ! j) \<notin> snd ` set (take j rest) \<longrightarrow>
           snd (rest ! j) \<notin> set (map (new_filename ps) (filter (single_chain (keep_chain ps)) (take j reps))) \<longrightarrow>
           fs1 (snd (rest ! j)) = Some (reps ! j)"
      "\<forall>j < length rest.
           single_chain (keep_chain ps) (reps ! j) \<longrightarrow>
           snd (rest ! j) \<notin> set (map (new_filename ps) (filter (single_chain (keep_chain ps)) reps)) \<longrightarrow>
           fs' (snd (rest ! j)) = None"
      "\<forall>p. fs1 p = None \<longrightarrow>
           p \<notin> set (map (new_filename ps) (filter (single_chain (keep_chain ps)) reps)) \<longrightarrow>
           fs' p = None"
      by blast
    have k: "single_chain (keep_chain ps) rep" using bk True by simp
    show ?thesis
    proof (intro exI [of _ "rep # reps"] conjI allI impI)
      show "length (rep # reps) = length (pr # rest)" using R(1) by simp
      show "kept' = kept @ map (new_filename ps) (filter (single_chain (keep_chain ps)) (rep # reps))"
        using R(2) k by simp
      show "indices' = indices @ map fst (map fst (filter (\<lambda>(p, r). single_chain (keep_chain ps) r) (zip (pr # rest) (rep # reps))))"
        using R(3) k pr by simp
    next
      fix j
      assume j: "j < length (pr # rest)"
        and a: "snd ((pr # rest) ! j) \<notin> snd ` set (take j (pr # rest))"
        and c: "snd ((pr # rest) ! j) \<notin> set (map (new_filename ps) (filter (single_chain (keep_chain ps)) (take j (rep # reps))))"
      show "fs (snd ((pr # rest) ! j)) = Some ((rep # reps) ! j)"
      proof (cases j)
        case 0
        then show ?thesis using rep pr by simp
      next
        case (Suc m)
        with j a c k pr have ne: "snd (rest ! m) \<noteq> fl" "snd (rest ! m) \<noteq> new_filename ps rep"
          and a': "snd (rest ! m) \<notin> snd ` set (take m rest)"
          and c': "snd (rest ! m) \<notin> set (map (new_filename ps) (filter (single_chain (keep_chain ps)) (take m reps)))"
          and m: "m < length rest"
          by auto
        from R(4) m a' c' have "fs1 (snd (rest ! m)) = Some (reps ! m)" by blast
        with ne fs1 Suc show ?thesis by simp
      qed
    next
      fix j
      assume j: "j < length (pr # rest)"
        and a: "single_chain (keep_chain ps) ((rep # reps) ! j)"
        and c: "snd ((pr # rest) ! j) \<notin> set (map (new_filename ps) (filter (single_chain (keep_chain ps)) (rep # reps)))"
      show "fs' (snd ((pr # rest) ! j)) = None"
      proof (cases j)
        case 0
        with c k pr have "fl \<noteq> new_filename ps rep"
          and "fl \<notin> set (map (new_filename ps) (filter (single_chain (keep_chain ps)) reps))"
          by auto
        with fs1 R(6) have "fs' fl = None" by simp
        with 0 pr show ?thesis by simp
      next
        case (Suc m)
        with j a c k R(5) show ?thesis by simp
      qed
    next
      fix p
      assume p: "fs p = None"
        and np: "p \<notin> set (map (new_filename ps) (filter (single_chain (keep_chain ps)) (rep # reps)))"
      with k have "fs1 p = None" using fs1 by auto
      with np k R(6) show "fs' p = None" by simp
    qed
  qed
qed

lemmas ex_simps = ex_members_def ex_seq_def ex_disk_def ex_dataset_def ex_build_new_metadata_def
  ex_same_dir_disk_def ex_same_dir_dataset_def
  process_def get_data_def Let_def get_filenames_def set_filenames_def Dataset_init_def
  enumerate_simps Chain_getitem_def upper_def upper_char_def os_rename_def new_filename_def

lemma snd_set_take_enumerate: "snd ` set (take j (enumerate n xs)) = set (take j xs)"
proof -
  have "map snd (take j (enumerate n xs)) = take j (map snd (enumerate n xs))"
    by (rule take_map [symmetric])
  then have "map snd (take j (enumerate n xs)) = take j xs" by simp
  then have "set (map snd (take j (enumerate n xs))) = set (take j xs)" by (rule arg_cong)
  then show ?thesis by simp
qed

text \<open>
  Claim C10, as amended. When \<^verbatim>\<open>process\<close> returns, there is the list \<open>reps\<close> of the
  repertoires its loop read, one per file of the dataset in sorted filename order (a file
  that no earlier iteration read or wrote is read as the disk held it at the start). The
  returned dataset is a copy of the input whose filename list is the sorted list of the new
  paths of exactly the repertoires all of whose sequences are of the chain to keep, and
  whose metadata file is what \<^verbatim>\<open>build_new_metadata\<close> answered. The input object keeps all
  its fields, its filename list being sorted in place (no change when it was sorted, as the
  constructor and \<^verbatim>\<open>set_filenames\<close> leave it). The old path of a kept repertoire no
  longer exists on disk, unless that path is itself among the new paths.
\<close>

theorem process_filters_dataset:
  assumes run: "process members bnm d ps fs = (Inr out, d', fs')"
  shows "\<exists>reps indices.
      length reps = length (filenames d)
    \<and> (\<forall>j < length reps.
          sort (filenames d) ! j \<notin> set (take j (sort (filenames d))) \<longrightarrow>
          sort (filenames d) ! j \<notin>
            set (map (new_filename ps) (filter (single_chain (keep_chain ps)) (take j reps))) \<longrightarrow>
          fs (sort (filenames d) ! j) = Some (reps ! j))
    \<and> get_filenames out = sort (map (new_filename ps) (filter (single_chain (keep_chain ps)) reps))
    \<and> bnm d indices (result_path ps) = Inr (metadata_file out)
    \<and> dataset_id out = dataset_id d \<and> data out = data d \<and> params out = params d
    \<and> encoded out = encoded d
    \<and> d' = d\<lparr>filenames := sort (filenames d)\<rparr>
    \<and> (sorted (filenames d) \<longrightarrow> d' = d)
    \<and> (\<forall>j < length reps.
          single_chain (keep_chain ps) (reps ! j) \<longrightarrow>
          sort (filenames d) ! j \<notin> set (get_filenames out) \<longrightarrow>
          fs' (sort (filenames d) ! j) = None)"
proof -
  let ?files = "sort (filenames d)"
  from run obtain kept indices where
    loop: "process_loop members ps ?files (enumerate 0 ?files) [] [] fs = (Inr (kept, indices), fs')"
    and d': "d' = d\<lparr>filenames := ?files\<rparr>"
    by (auto simp: process_def get_data_def get_filenames_def Let_def split: prod.splits sum.splits)
  from run loop obtain mf where mf: "bnm d indices (result_path ps) = Inr mf"
    and out: "out = set_filenames (d\<lparr>metadata_file := mf\<rparr>) kept"
    by (auto simp: process_def get_data_def get_filenames_def Let_def split: prod.splits sum.splits)
  have pairs: "\<forall>(i, f) \<in> set (enumerate 0 ?files). i < length ?files \<and> ?files ! i = f"
    by (auto simp: in_set_enumerate_eq)
  from process_loop_Inr [OF loop pairs] obtain reps where R:
    "length reps = length (enumerate 0 ?files)"
    "kept = [] @ map (new_filename ps) (filter (single_chain (keep_chain ps)) reps)"
    "\<forall>j < length (enumerate 0 ?files).
        snd (enumerate 0 ?files ! j) \<notin> snd ` set (take j (enumerate 0 ?files)) \<longrightarrow>
        snd (enumerate 0 ?files ! j) \<notin>
          set (map (new_filename ps) (filter (single_chain (keep_chain ps)) (take j reps))) \<longrightarrow>
        fs (snd (enumerate 0 ?files ! j)) = Some (reps ! j)"
    "\<forall>j < length (enumerate 0 ?files).
        single_chain (keep_chain ps) (reps ! j) \<longrightarrow>
        snd (enumerate 0 ?files ! j) \<notin>
          set (map (new_filename ps) (filter (single_chain (keep_chain ps)) reps)) \<longrightarrow>
        fs' (snd (enumerate 0 ?files ! j)) = None"
    by blast
  have len: "length reps = length (filenames d)" using R(1) by simp
  have nth: "\<And>j. j < length reps \<Longrightarrow> snd (enumerate 0 ?files ! j) = ?files ! j"
    using len by (simp add: nth_enumerate_eq)
  have read: "\<forall>j < length reps.
          ?files ! j \<notin> set (take j ?files) \<longrightarrow>
          ?files ! j \<notin> set (map (new_filename ps) (filter (single_chain (keep_chain ps)) (take j reps))) \<longrightarrow>
          fs (?files ! j) = Some (reps ! j)"
    using R(3) nth len by (simp add: snd_set_take_enumerate)
  have names: "get_filenames out = sort (map (new_filename ps) (filter (single_chain (keep_chain ps)) reps))"
    using out R(2) by (simp add: get_filenames_def set_filenames_def)
  have gone: "\<forall>j < length reps.
          single_chain (keep_chain ps) (reps ! j) \<longrightarrow>
          ?files ! j \<notin> set (get_filenames out) \<longrightarrow>
          fs' (?files ! j) = None"
    using R(4) nth len names by simp
  have same: "sorted (filenames d) \<longrightarrow> d' = d"
    using d' by (simp add: sort_strings_id)
  have frame: "dataset_id out = dataset_id d \<and> data out = data d \<and> params out = params d
      \<and> encoded out = encoded d" "metadata_file out = mf"
    using out by (simp_all add: set_filenames_def)
  show ?thesis
    using len read names mf frame d' same gone by blast
qed

theorem process_filters_dataset_witness:
  "process ex_members ex_build_new_metadata ex_dataset \<lparr> keep_chain = ''a'', result_path = ''out/'' \<rparr> ex_disk
     = (Inr \<lparr> data = None, params = None, encoded = None, dataset_id = ''d1'',
               filenames = [''out/r1.pickle''], metadata_file = Some ''out/metadata.csv'' \<rparr>,
        ex_dataset,
        snd (snd (process ex_members ex_build_new_metadata ex_dataset
                    \<lparr> keep_chain = ''a'', result_path = ''out/'' \<rparr> ex_disk)))
   \<and> snd (snd (process ex_members ex_build_new_metadata ex_dataset
                    \<lparr> keep_chain = ''a'', result_path = ''out/'' \<rparr> ex_disk)) ''in/r1.pkl'' = None
   \<and> (\<exists>reps. length reps = length (filenames ex_dataset)
         \<and> [''out/r1.pickle''] =
             sort (map (new_filename \<lparr> keep_chain = ''a'', result_path = ''out/'' \<rparr>)
                    (filter (single_chain ''a'') reps)))"
proof -
  let ?ps = "\<lparr> keep_chain = ''a'', result_path = ''out/'' \<rparr>"
  let ?out = "\<lparr> data = None, params = None, encoded = None, dataset_id = ''d1'',
               filenames = [''out/r1.pickle''], metadata_file = Some ''out/metadata.csv'' \<rparr>"
  have h: "process ex_members ex_build_new_metadata ex_dataset ?ps ex_disk
     = (Inr ?out, ex_dataset,
        snd (snd (process ex_members ex_build_new_metadata ex_dataset ?ps ex_disk)))"
    by (simp add: ex_simps)
  have g: "snd (snd (process ex_members ex_build_new_metadata ex_dataset ?ps ex_disk)) ''in/r1.pkl'' = None"
    by (simp add: ex_simps)
  from process_filters_dataset [OF h]
  have "\<exists>reps. length reps = length (filenames ex_dataset)
         \<and> get_filenames ?out = sort (map (new_filename ?ps) (filter (single_chain (keep_chain ?ps)) reps))"
    by blast
  then have "\<exists>reps. length reps = length (filenames ex_dataset)
         \<and> [''out/r1.pickle''] = sort (map (new_filename ?ps) (filter (single_chain ''a'') reps))"
    by (simp add: get_filenames_def)
  with h g show ?thesis by blast
qed

text \<open>
  Claim C10 as stated fails where a kept repertoire already lies at its new path: the file
  is renamed to itself, and the path recorded in the input dataset still exists.
\<close>

theorem process_same_directory_counterexample:
  "fst (process ex_members ex_build_new_metadata ex_same_dir_dataset
          \<lparr> keep_chain = ''A'', result_path = ''out/'' \<rparr> ex_same_dir_disk)
     = Inr \<lparr> data = None, params = None, encoded = None, dataset_id = ''d1'',
             filenames = [''out/r1.pickle''], metadata_file = Some ''out/metadata.csv'' \<rparr>
   \<and> get_filenames ex_same_dir_dataset = [''out/r1.pickle'']
   \<and> snd (snd (process ex_members ex_build_new_metadata ex_same_dir_dataset
          \<lparr> keep_chain = ''A'', result_path = ''out/'' \<rparr> ex_same_dir_disk)) ''out/r1.pickle''
     = Some \<lparr> rep_identifier = ''r1'', sequences = [ex_seq ''A''] \<rparr>"
  by (simp add: ex_simps)


section \<open>Properties of HPOptimizationProcess\<close>

subsection \<open>Averaging over the inner folds\<close>








subsection \<open>The log\<close>

lemma logged_Nil [simp]: "logged [] w = w"
  by (simp add: logged_def)

lemma logged_logged [simp]: "logged b (logged a w) = logged (a @ b) w"
  by (simp add: logged_def)

lemma emit_logged: "emit ev w = logged [ev] w"
  by (simp add: emit_def logged_def)

lemma logged_sel [simp]:
  "trace (logged evs w) = trace w @ evs"
  "hp_strategy (logged evs w) = hp_strategy w"
  "stdout (logged evs w) = stdout w"
  by (simp_all add: logged_def)

lemma logged_strategy_update:
  "logged evs (w\<lparr>hp_strategy := s\<rparr>) = (logged evs w)\<lparr>hp_strategy := s\<rparr>"
  by (simp add: logged_def)


lemma run_setting_eq:
  "run_setting E self hs tr te rid cur w =
     (inner_process E (MLProcess_init self hs tr te (fold_path E hs rid cur)) rid,
      logged [PathBuilder_build (fold_path E hs rid cur),
              MLProcess_run (MLProcess_init self hs tr te (fold_path E hs rid cur)) rid] w)"
  by (simp add: run_setting_def Let_def PathBuilder_build_call_def emit_logged)




lemma get_next_setting_eq:
  "get_next_setting E arg w =
     (fst (next_setting E (hp_strategy w) arg),
      (logged [Strategy_get_next_setting arg (fst (next_setting E (hp_strategy w) arg))] w)
        \<lparr>hp_strategy := snd (next_setting E (hp_strategy w) arg)\<rparr>)"
  by (simp add: get_next_setting_def emit_logged logged_strategy_update split: prod.splits)

lemma get_optimal_hps_eq:
  "get_optimal_hps E w =
     (fst (optimal_hps E (hp_strategy w)),
      (logged [Strategy_get_optimal_hps (fst (optimal_hps E (hp_strategy w)))] w)
        \<lparr>hp_strategy := snd (optimal_hps E (hp_strategy w))\<rparr>)"
  by (simp add: get_optimal_hps_def emit_logged logged_strategy_update split: prod.splits)




lemma for_each_logged:
  assumes "\<And>x w r w'. x \<in> set xs \<Longrightarrow> body x w = (r, w') \<Longrightarrow> \<exists>evs. w' = logged evs w \<and> list_all Q evs"
    and "for_each body xs w = (r, w')"
  shows "\<exists>evs. w' = logged evs w \<and> list_all Q evs"
  using assms
proof (induction xs arbitrary: w)
  case Nil
  then have "w' = logged [] w" by simp
  then show ?case by (intro exI [of _ "[]"]) simp
next
  case (Cons x xs)
  obtain r1 w1 where b: "body x w = (r1, w1)" by (cases "body x w")
  from Cons.prems(1) [OF _ b] obtain evs1 where 1: "w1 = logged evs1 w" "list_all Q evs1" by auto
  show ?case
  proof (cases r1)
    case (Inl e)
    with Cons.prems(2) b have "w' = w1" by simp
    with 1 show ?thesis by blast
  next
    case (Inr u)
    with Cons.prems(2) b have more: "for_each body xs w1 = (r, w')" by simp
    have "\<exists>evs. w' = logged evs w1 \<and> list_all Q evs"
      by (rule Cons.IH [OF _ more]) (rule Cons.prems(1), simp_all)
    then obtain evs where 2: "w' = logged evs w1" "list_all Q evs" by blast
    from 1 2 have "w' = logged (evs1 @ evs) w" "list_all Q (evs1 @ evs)" by simp_all
    then show ?thesis by blast
  qed
qed

lemma loggedI:
  "w' = logged evs w \<Longrightarrow> list_all Q evs \<Longrightarrow> \<exists>evs. w' = logged evs w \<and> list_all Q evs"
  by blast

lemma run_data_report_eq:
  "run_data_report E rep ds p w =
     ((case data_report E rep ds p of Some e \<Rightarrow> Inl e | None \<Rightarrow> Inr ()),
      logged [DataReport_generate rep ds p] w)"
  by (simp add: run_data_report_def emit_logged split: option.splits)

lemma run_model_report_eq:
  "run_model_report E rep tr te m p w =
     ((case ml_report E rep tr te m p of Some e \<Rightarrow> Inl e | None \<Rightarrow> Inr ()),
      logged [MLReport_generate rep tr te m p] w)"
  by (simp add: run_model_report_def emit_logged split: option.splits)



lemma report_split_logged:
  assumes Q: "\<And>rep ds p. ds \<in> set trains \<or> ds \<in> set tests \<Longrightarrow> Q (DataReport_generate rep ds p)"
    and i: "index < length trains"
    and run: "report_split E trains tests pth rep index w = (r, w')"
  shows "\<exists>evs. w' = logged evs w \<and> list_all Q evs"
proof -
  let ?p1 = "pth @ ''split_'' @ str_nat (index + 1) @ ''/train/''"
  let ?p2 = "pth @ ''split_'' @ str_nat (index + 1) @ ''/test/''"
  have q1: "Q (DataReport_generate rep (trains ! index) ?p1)" using i by (intro Q) simp
  show ?thesis
  proof (cases "data_report E rep (trains ! index) ?p1 = None \<and> \<not> length tests \<le> index")
    case False
    with run have "w' = logged [DataReport_generate rep (trains ! index) ?p1] w"
      by (auto simp: report_split_def run_data_report_eq split: option.splits if_splits)
    then show ?thesis by (rule loggedI) (use q1 in simp)
  next
    case True
    then have q2: "Q (DataReport_generate rep (tests ! index) ?p2)" by (intro Q) simp
    from True run have "w' = logged [DataReport_generate rep (trains ! index) ?p1,
        DataReport_generate rep (tests ! index) ?p2] w"
      by (auto simp: report_split_def run_data_report_eq)
    then show ?thesis by (rule loggedI) (use q1 q2 in simp)
  qed
qed

lemma run_selection_reports_logged:
  assumes Q: "\<And>rep ds p. ds = dataset \<or> ds \<in> set trains \<or> ds \<in> set tests \<Longrightarrow> Q (DataReport_generate rep ds p)"
    and run: "run_selection_reports E self dataset trains tests pth w = (r, w')"
  shows "\<exists>evs. w' = logged evs w \<and> list_all Q evs"
proof -
  have inner: "\<exists>evs. w2 = logged evs w0 \<and> list_all Q evs"
    if "index \<in> set (py_range (int (length trains)))" "report_split E trains tests pth rep index w0 = (r0, w2)"
    for rep index w0 r0 w2
  proof (rule report_split_logged [OF _ _ that(2)])
    show "index < length trains" using that(1) by (simp add: py_range_def)
    show "Q (DataReport_generate rep' ds p)" if "ds \<in> set trains \<or> ds \<in> set tests" for rep' ds p
      using that by (intro Q) blast
  qed
  have outer: "\<exists>evs. w2 = logged evs w0 \<and> list_all Q evs"
    if "for_each (report_split E trains tests pth rep) (py_range (int (length trains))) w0 = (r0, w2)"
    for rep w0 r0 w2
    using that by (rule for_each_logged [rotated]) (rule inner)
  have last: "\<exists>evs. w2 = logged evs w0 \<and> list_all Q evs"
    if "run_data_report E rep dataset pth w0 = (r0, w2)" for rep w0 r0 w2
  proof -
    have q: "Q (DataReport_generate rep dataset pth)" by (intro Q) simp
    from that have "w2 = logged [DataReport_generate rep dataset pth] w0"
      by (simp add: run_data_report_eq)
    then show ?thesis by (rule loggedI) (use q in simp)
  qed
  obtain r1 w1 where first: "for_each (\<lambda>rep. for_each (report_split E trains tests pth rep)
        (py_range (int (length trains))))
      (data_split_reports (reports (self_selection self))) w = (r1, w1)"
    by (cases "for_each (\<lambda>rep. for_each (report_split E trains tests pth rep)
        (py_range (int (length trains))))
      (data_split_reports (reports (self_selection self))) w")
  have "\<exists>evs. w1 = logged evs w \<and> list_all Q evs"
    using first by (rule for_each_logged [rotated]) (rule outer)
  then obtain evs1 where 1: "w1 = logged evs1 w" "list_all Q evs1" by blast
  show ?thesis
  proof (cases r1)
    case (Inl e)
    with run first have "w' = w1" by (simp add: run_selection_reports_def)
    with 1 show ?thesis by blast
  next
    case (Inr u)
    with run first have second: "for_each (\<lambda>rep. run_data_report E rep dataset pth)
            (data_reports (reports (self_selection self))) w1 = (r, w')"
      by (simp add: run_selection_reports_def)
    have "\<exists>evs. w' = logged evs w1 \<and> list_all Q evs"
      using second by (rule for_each_logged [rotated]) (rule last)
    then obtain evs2 where 2: "w' = logged evs2 w1" "list_all Q evs2" by blast
    from 1 2 have "w' = logged (evs1 @ evs2) w" "list_all Q (evs1 @ evs2)" by simp_all
    then show ?thesis by blast
  qed
qed


lemma split_data_eq:
  "split_data E d cfg w =
     (splitter E (DataSplitterParams d cfg), logged [DataSplitter_run (DataSplitterParams d cfg)] w)"
  by (simp add: split_data_def emit_logged)



lemma Some_fst_snd: "map_option fst x = Some a \<Longrightarrow> x = Some (a, snd (the x))"
  by (cases x) auto


subsection \<open>The steps of an outer fold\<close>

lemma encode_dataset_eq:
  "encode_dataset E self d hs p learn w =
     (data_encoder E (DataEncoderParams self d hs p learn),
      logged [DataEncoder_run (DataEncoderParams self d hs p learn)] w)"
  by (simp add: encode_dataset_def emit_logged)

lemma assess_performance_eq:
  "assess_performance E self m d rn cur w =
     (assessor E (MLMethodAssessmentParams self m d rn cur),
      logged [MLMethodAssessment_run (MLMethodAssessmentParams self m d rn cur)] w)"
  by (simp add: assess_performance_def emit_logged)

lemma train_optimal_method_cases:
  assumes "train_optimal_method E self d hs p w = (r, w')"
  obtains (missing) e where "r = Inl e" "w' = w"
    | (called) cv n_folds where
        "map_of (hs_ml_params hs) ''model_selection_cv'' = Some cv"
        "map_of (hs_ml_params hs) ''model_selection_n_folds'' = Some n_folds"
        "r = trainer E (MLMethodTrainerParams self d hs p cv n_folds)"
        "w' = logged [MLMethodTrainer_run (MLMethodTrainerParams self d hs p cv n_folds)] w"
  using assms
  by (auto simp: train_optimal_method_def emit_logged split: option.splits)

lemma step_of_simps [simp]:
  "step_of (DataEncoder_run (DataEncoderParams self d hs p True)) = EncodeLearn"
  "step_of (DataEncoder_run (DataEncoderParams self d hs p False)) = EncodeApply"
  by (simp_all add: DataEncoderParams_def)

lemma report_train_test_logged:
  assumes Q: "\<And>rep p. Q (DataReport_generate rep train p)" "\<And>rep p. Q (DataReport_generate rep test p)"
    and run: "report_train_test E train test pth rep w = (r, w')"
  shows "\<exists>evs. w' = logged evs w \<and> list_all Q evs"
proof (cases "data_report E rep train (pth @ ''train/'')")
  case (Some e)
  with run have "w' = logged [DataReport_generate rep train (pth @ ''train/'')] w"
    by (simp add: report_train_test_def run_data_report_eq)
  then show ?thesis by (rule loggedI) (use Q in simp)
next
  case None
  with run have "w' = logged [DataReport_generate rep train (pth @ ''train/''),
      DataReport_generate rep test (pth @ ''test/'')] w"
    by (simp add: report_train_test_def run_data_report_eq)
  then show ?thesis by (rule loggedI) (use Q in simp)
qed

lemma run_assessment_reports_logged:
  assumes Q: "\<And>rep p. Q (DataReport_generate rep train p)" "\<And>rep p. Q (DataReport_generate rep test p)"
      "\<And>rep p. Q (MLReport_generate rep train test m p)"
    and run: "run_assessment_reports E self train test m pth w = (r, w')"
  shows "\<exists>evs. w' = logged evs w \<and> list_all Q evs"
proof -
  have one: "\<exists>evs. w2 = logged evs w0 \<and> list_all Q evs"
    if "report_train_test E train test pth rep w0 = (r0, w2)" for rep w0 r0 w2
    using Q(1,2) that by (rule report_train_test_logged)
  have two: "\<exists>evs. w2 = logged evs w0 \<and> list_all Q evs"
    if "run_model_report E rep train test m pth w0 = (r0, w2)" for rep w0 r0 w2
  proof -
    from that have "w2 = logged [MLReport_generate rep train test m pth] w0"
      by (simp add: run_model_report_eq)
    then show ?thesis by (rule loggedI) (use Q in simp)
  qed
  have three: "\<exists>evs. w2 = logged evs w0 \<and> list_all Q evs"
    if "run_performance_report E rep m train test pth w0 = (r0, w2)" for rep w0 r0 w2
  proof -
    from that have "w2 = logged [] w0" by (simp add: run_performance_report_def)
    then show ?thesis by (rule loggedI) simp
  qed
  obtain r1 w1 where a: "for_each (report_train_test E train test pth)
             (data_split_reports (reports (self_assessment self))) w = (r1, w1)"
    by (cases "for_each (report_train_test E train test pth)
             (data_split_reports (reports (self_assessment self))) w")
  have "\<exists>evs. w1 = logged evs w \<and> list_all Q evs"
    using a by (rule for_each_logged [rotated]) (rule one)
  then obtain evs1 where 1: "w1 = logged evs1 w" "list_all Q evs1" by blast
  show ?thesis
  proof (cases r1)
    case (Inl e)
    with run a have "w' = w1" by (simp add: run_assessment_reports_def)
    with 1 show ?thesis by blast
  next
    case r1: (Inr u)
    obtain r2 w2 where b: "for_each (\<lambda>rep. run_model_report E rep train test m pth)
                  (optimal_model_reports (reports (self_assessment self))) w1 = (r2, w2)"
      by (cases "for_each (\<lambda>rep. run_model_report E rep train test m pth)
                  (optimal_model_reports (reports (self_assessment self))) w1")
    have "\<exists>evs. w2 = logged evs w1 \<and> list_all Q evs"
      using b by (rule for_each_logged [rotated]) (rule two)
    then obtain evs2 where 2: "w2 = logged evs2 w1" "list_all Q evs2" by blast
    show ?thesis
    proof (cases r2)
      case (Inl e)
      with run a r1 b have "w' = w2" by (simp add: run_assessment_reports_def)
      with 1 2 have "w' = logged (evs1 @ evs2) w" "list_all Q (evs1 @ evs2)" by simp_all
      then show ?thesis by blast
    next
      case (Inr u')
      with run a r1 b have c: "for_each (\<lambda>rep. run_performance_report E rep m train test pth)
                 (performance_reports (reports (self_assessment self))) w2 = (r, w')"
        by (simp add: run_assessment_reports_def)
      have "\<exists>evs. w' = logged evs w2 \<and> list_all Q evs"
        using c by (rule for_each_logged [rotated]) (rule three)
      then obtain evs3 where 3: "w' = logged evs3 w2" "list_all Q evs3" by blast
      with 1 2 have "w' = logged (evs1 @ evs2 @ evs3) w" "list_all Q (evs1 @ evs2 @ evs3)"
        by simp_all
      then show ?thesis by blast
    qed
  qed
qed


lemma DataEncoderParams_sel [simp]:
  "ep_learn_model (dep_encoder_params (DataEncoderParams self d hs p learn)) = learn"
  "dep_dataset (DataEncoderParams self d hs p learn) = d"
  by (simp_all add: DataEncoderParams_def)

lemma map_step_of_reports:
  "list_all (\<lambda>ev. step_of ev = Report) revs \<Longrightarrow> map step_of revs = replicate (length revs) Report"
  by (induction revs) auto

lemma not_encoder_in_reports:
  "list_all (\<lambda>ev. step_of ev = Report) revs \<Longrightarrow> DataEncoder_run ps \<notin> set revs"
  by (induction revs) (auto split: if_splits)

lemma assess_optimal_Inr:
  assumes run: "assess_optimal E self train test rn cur opt w = (Inr perf, w')"
  shows "\<exists>enc_train cv n_folds m enc_test revs.
              data_encoder E (DataEncoderParams self train opt cur True) = Inr enc_train
            \<and> map_of (hs_ml_params opt) ''model_selection_cv'' = Some cv
            \<and> map_of (hs_ml_params opt) ''model_selection_n_folds'' = Some n_folds
            \<and> trainer E (MLMethodTrainerParams self enc_train opt (cur @ ''optimal/'') cv n_folds) = Inr m
            \<and> data_encoder E (DataEncoderParams self test opt cur False) = Inr enc_test
            \<and> assessor E (MLMethodAssessmentParams self m enc_test rn cur) = Inr perf
            \<and> w' = logged ([DataEncoder_run (DataEncoderParams self train opt cur True),
                      MLMethodTrainer_run
                        (MLMethodTrainerParams self enc_train opt (cur @ ''optimal/'') cv n_folds),
                      DataEncoder_run (DataEncoderParams self test opt cur False),
                      MLMethodAssessment_run (MLMethodAssessmentParams self m enc_test rn cur)] @ revs) w
            \<and> list_all (\<lambda>ev. step_of ev = Report) revs
            \<and> run_assessment_reports E self train test m (cur @ ''reports/'')
                 (logged [DataEncoder_run (DataEncoderParams self train opt cur True),
                      MLMethodTrainer_run
                        (MLMethodTrainerParams self enc_train opt (cur @ ''optimal/'') cv n_folds),
                      DataEncoder_run (DataEncoderParams self test opt cur False),
                      MLMethodAssessment_run (MLMethodAssessmentParams self m enc_test rn cur)] w)
               = (Inr (), w')"
proof -
  let ?dp1 = "DataEncoderParams self train opt cur True"
  let ?dp2 = "DataEncoderParams self test opt cur False"
  let ?e1 = "DataEncoder_run ?dp1"
  let ?e3 = "DataEncoder_run ?dp2"
  from run obtain enc_train where enc1: "data_encoder E ?dp1 = Inr enc_train"
    by (cases "data_encoder E ?dp1") (auto simp: assess_optimal_def encode_dataset_eq)
  obtain r2 w2 where t: "train_optimal_method E self enc_train opt (cur @ ''optimal/'') (logged [?e1] w) = (r2, w2)"
    by (cases "train_optimal_method E self enc_train opt (cur @ ''optimal/'') (logged [?e1] w)")
  from run enc1 t obtain m where r2: "r2 = Inr m"
    by (cases r2) (auto simp: assess_optimal_def encode_dataset_eq)
  from t r2 obtain cv n_folds where
    cv: "map_of (hs_ml_params opt) ''model_selection_cv'' = Some cv"
    and nf: "map_of (hs_ml_params opt) ''model_selection_n_folds'' = Some n_folds"
    and tr: "trainer E (MLMethodTrainerParams self enc_train opt (cur @ ''optimal/'') cv n_folds) = Inr m"
    and w2: "w2 = logged [MLMethodTrainer_run
               (MLMethodTrainerParams self enc_train opt (cur @ ''optimal/'') cv n_folds)] (logged [?e1] w)"
    by (cases rule: train_optimal_method_cases) auto
  let ?e2 = "MLMethodTrainer_run (MLMethodTrainerParams self enc_train opt (cur @ ''optimal/'') cv n_folds)"
  from run enc1 t r2 obtain enc_test where enc2: "data_encoder E ?dp2 = Inr enc_test"
    by (cases "data_encoder E ?dp2") (auto simp: assess_optimal_def encode_dataset_eq)
  let ?e4 = "MLMethodAssessment_run (MLMethodAssessmentParams self m enc_test rn cur)"
  from run enc1 t r2 enc2 have ass: "assessor E (MLMethodAssessmentParams self m enc_test rn cur) = Inr perf"
    by (cases "assessor E (MLMethodAssessmentParams self m enc_test rn cur)")
       (auto simp: assess_optimal_def encode_dataset_eq assess_performance_eq split: prod.splits sum.splits)
  from run enc1 t r2 w2 enc2 ass have reps: "run_assessment_reports E self train test m (cur @ ''reports/'')
         (logged [?e1, ?e2, ?e3, ?e4] w) = (Inr (), w')"
    by (auto simp: assess_optimal_def encode_dataset_eq assess_performance_eq split: prod.splits sum.splits)
  have "\<exists>revs. w' = logged revs (logged [?e1, ?e2, ?e3, ?e4] w) \<and> list_all (\<lambda>ev. step_of ev = Report) revs"
    by (rule run_assessment_reports_logged [OF _ _ _ reps]) simp_all
  then obtain revs where w': "w' = logged ([?e1, ?e2, ?e3, ?e4] @ revs) w"
    and rp: "list_all (\<lambda>ev. step_of ev = Report) revs" by auto
  show ?thesis
    apply (rule exI [of _ enc_train])
    apply (rule exI [of _ cv])
    apply (rule exI [of _ n_folds])
    apply (rule exI [of _ m])
    apply (rule exI [of _ enc_test])
    apply (rule exI [of _ revs])
    using enc1 cv nf tr enc2 ass w' rp reps apply (intro conjI)
            apply assumption+
    done
qed


lemma fold_logI:
  "w' = logged evs w \<Longrightarrow>
   prefix (map step_of evs) ([EncodeLearn, Train, EncodeApply, Assess] @ replicate n Report) \<Longrightarrow>
   \<forall>ps. DataEncoder_run ps \<in> set evs \<longrightarrow> ps = a \<or> ps = b \<Longrightarrow>
   \<exists>evs. w' = logged evs w
     \<and> (\<exists>n. prefix (map step_of evs) ([EncodeLearn, Train, EncodeApply, Assess] @ replicate n Report))
     \<and> (\<forall>ps. DataEncoder_run ps \<in> set evs \<longrightarrow> ps = a \<or> ps = b)"
  by blast

lemma assess_optimal_logged:
  assumes run: "assess_optimal E self train test rn cur opt w = (res, w')"
  shows "\<exists>evs. w' = logged evs w
     \<and> (\<exists>n. prefix (map step_of evs) ([EncodeLearn, Train, EncodeApply, Assess] @ replicate n Report))
     \<and> (\<forall>ps. DataEncoder_run ps \<in> set evs \<longrightarrow>
            ps = DataEncoderParams self train opt cur True \<or> ps = DataEncoderParams self test opt cur False)"
proof -
  let ?dp1 = "DataEncoderParams self train opt cur True"
  let ?dp2 = "DataEncoderParams self test opt cur False"
  let ?e1 = "DataEncoder_run ?dp1"
  let ?e3 = "DataEncoder_run ?dp2"
  show ?thesis
  proof (cases "data_encoder E ?dp1")
    case (Inl e)
    with run have "w' = logged [?e1] w"
      by (auto simp: assess_optimal_def encode_dataset_eq)
    then show ?thesis by (rule fold_logI [where n = 0]) simp_all
  next
    case enc1: (Inr enc_train)
    obtain r2 w2 where t: "train_optimal_method E self enc_train opt (cur @ ''optimal/'') (logged [?e1] w) = (r2, w2)"
      by (cases "train_optimal_method E self enc_train opt (cur @ ''optimal/'') (logged [?e1] w)")
    from t show ?thesis
    proof (cases rule: train_optimal_method_cases)
      case (missing e)
      with run enc1 t have "w' = logged [?e1] w"
        by (auto simp: assess_optimal_def encode_dataset_eq)
      then show ?thesis by (rule fold_logI [where n = 0]) simp_all
    next
      case (called cv n_folds)
      let ?tp = "MLMethodTrainerParams self enc_train opt (cur @ ''optimal/'') cv n_folds"
      let ?e2 = "MLMethodTrainer_run ?tp"
      have w2: "w2 = logged [?e1, ?e2] w" using called(4) by simp
      show ?thesis
      proof (cases "trainer E ?tp")
        case (Inl e)
        with run enc1 t called have "w' = logged [?e1, ?e2] w"
          by (auto simp: assess_optimal_def encode_dataset_eq)
        then show ?thesis by (rule fold_logI [where n = 0]) simp_all
      next
        case tr: (Inr m)
        show ?thesis
        proof (cases "data_encoder E ?dp2")
          case (Inl e)
          with run enc1 t called tr have "w' = logged [?e1, ?e2, ?e3] w"
            by (auto simp: assess_optimal_def encode_dataset_eq)
          then show ?thesis by (rule fold_logI [where n = 0]) simp_all
        next
          case enc2: (Inr enc_test)
          let ?ap = "MLMethodAssessmentParams self m enc_test rn cur"
          let ?e4 = "MLMethodAssessment_run ?ap"
          show ?thesis
          proof (cases "assessor E ?ap")
            case (Inl e)
            with run enc1 t called tr enc2 have "w' = logged [?e1, ?e2, ?e3, ?e4] w"
              by (auto simp: assess_optimal_def encode_dataset_eq assess_performance_eq)
            then show ?thesis by (rule fold_logI [where n = 0]) simp_all
          next
            case ass: (Inr perf)
            let ?w4 = "logged [?e1, ?e2, ?e3, ?e4] w"
            obtain r5 w5 where reps: "run_assessment_reports E self train test m (cur @ ''reports/'') ?w4 = (r5, w5)"
              by (cases "run_assessment_reports E self train test m (cur @ ''reports/'') ?w4")
            have "\<exists>revs. w5 = logged revs ?w4 \<and> list_all (\<lambda>ev. step_of ev = Report) revs"
              by (rule run_assessment_reports_logged [OF _ _ _ reps]) simp_all
            then obtain revs where w5: "w5 = logged revs ?w4"
              and rp: "list_all (\<lambda>ev. step_of ev = Report) revs" by blast
            from run enc1 t called tr enc2 ass reps have "w' = w5"
              by (auto simp: assess_optimal_def encode_dataset_eq assess_performance_eq split: sum.splits)
            then have w': "w' = logged ([?e1, ?e2, ?e3, ?e4] @ revs) w" using w5 by simp
            have pre: "prefix (map step_of ([?e1, ?e2, ?e3, ?e4] @ revs))
                ([EncodeLearn, Train, EncodeApply, Assess] @ replicate (length revs) Report)"
              using map_step_of_reports [OF rp] by simp
            have enc: "\<forall>ps. DataEncoder_run ps \<in> set ([?e1, ?e2, ?e3, ?e4] @ revs) \<longrightarrow>
                ps = ?dp1 \<or> ps = ?dp2"
              using not_encoder_in_reports [OF rp] by auto
            from w' pre enc show ?thesis by (rule fold_logI)
          qed
        qed
      qed
    qed
  qed
qed


subsection \<open>What the selection phase is given\<close>

lemma test_hp_setting_loop_logged:
  assumes Q: "\<And>p. Q (PathBuilder_build p)"
      "\<And>i p rid. i < length trains \<Longrightarrow> i < length tests \<Longrightarrow>
         Q (MLProcess_run (MLProcess_init self hs (trains ! i) (tests ! i) p) rid)"
    and run: "test_hp_setting_loop E self hs trains tests cur idxs acc w = (r, w')"
  shows "\<exists>evs. w' = logged evs w \<and> list_all Q evs"
  using run
proof (induction idxs arbitrary: acc w)
  case Nil
  then have "w' = logged [] w" by simp
  then show ?case by (rule loggedI) simp
next
  case (Cons index rest)
  show ?case
  proof (cases "length trains \<le> index \<or> length tests \<le> index")
    case True
    with Cons.prems have "w' = logged [] w" by auto
    then show ?thesis by (rule loggedI) simp
  next
    case False
    let ?ml = "MLProcess_init self hs (trains ! index) (tests ! index) (fold_path E hs (index + 1) cur)"
    let ?evs = "[PathBuilder_build (fold_path E hs (index + 1) cur), MLProcess_run ?ml (index + 1)]"
    have q: "list_all Q ?evs" using False Q by simp
    show ?thesis
    proof (cases "inner_process E ?ml (index + 1)")
      case (Inl e)
      with False Cons.prems have "w' = logged ?evs w" by (auto simp: run_setting_eq)
      then show ?thesis using q by (rule loggedI)
    next
      case (Inr perf)
      with False Cons.prems
      have more: "test_hp_setting_loop E self hs trains tests cur rest (acc @ [perf]) (logged ?evs w) = (r, w')"
        by (auto simp: run_setting_eq)
      from Cons.IH [OF more] obtain evs where 1: "w' = logged evs (logged ?evs w)" "list_all Q evs"
        by blast
      from 1 q have "w' = logged (?evs @ evs) w" "list_all Q (?evs @ evs)" by simp_all
      then show ?thesis by (rule loggedI)
    qed
  qed
qed

lemma test_hp_setting_logged:
  assumes Q: "\<And>p. Q (PathBuilder_build p)"
      "\<And>i p rid. i < length trains \<Longrightarrow> i < length tests \<Longrightarrow>
         Q (MLProcess_run (MLProcess_init self hs (trains ! i) (tests ! i) p) rid)"
    and run: "test_hp_setting E self hs trains tests cur w = (r, w')"
  shows "\<exists>evs. w' = logged evs w \<and> list_all Q evs"
proof -
  obtain r0 w0 where loop: "test_hp_setting_loop E self hs trains tests cur
       (py_range (split_count (self_selection self))) [] w = (r0, w0)"
    by (cases "test_hp_setting_loop E self hs trains tests cur
       (py_range (split_count (self_selection self))) [] w")
  from run loop have "w' = w0" by (auto simp: test_hp_setting_def split: sum.splits)
  with test_hp_setting_loop_logged [of Q, OF Q loop] show ?thesis by simp
qed

lemma selection_loop_logged:
  assumes Q: "\<And>p. Q (PathBuilder_build p)"
      "\<And>hs i p rid. i < length trains \<Longrightarrow> i < length tests \<Longrightarrow>
         Q (MLProcess_run (MLProcess_init self hs (trains ! i) (tests ! i) p) rid)"
      "\<And>a r. Q (Strategy_get_next_setting a r)"
    and run: "selection_loop fuel E self trains tests cur hso w = Some (r, w')"
  shows "\<exists>evs. trace w' = trace w @ evs \<and> list_all Q evs"
  using run
proof (induction fuel arbitrary: hso w)
  case 0
  then have "w' = w" by (cases hso) auto
  then show ?case by (intro exI [of _ "[]"]) simp
next
  case (Suc fuel)
  show ?case
  proof (cases hso)
    case None
    with Suc.prems have "w' = w" by simp
    then show ?thesis by (intro exI [of _ "[]"]) simp
  next
    case (Some hs)
    obtain r1 w1 where t: "test_hp_setting E self hs trains tests cur w = (r1, w1)"
      by (cases "test_hp_setting E self hs trains tests cur w")
    from test_hp_setting_logged [of Q, OF Q(1) Q(2) t]
    obtain evs1 where 1: "w1 = logged evs1 w" "list_all Q evs1" by blast
    show ?thesis
    proof (cases r1)
      case (Inl e)
      with Suc.prems Some t have "w' = w1" by auto
      with 1 show ?thesis by (intro exI [of _ evs1]) simp
    next
      case (Inr perf)
      obtain r2 w2 where g: "get_next_setting E (Some (hs, perf)) w1 = (r2, w2)"
        by (cases "get_next_setting E (Some (hs, perf)) w1")
      let ?ev = "Strategy_get_next_setting (Some (hs, perf)) r2"
      from g have w2: "trace w2 = trace w1 @ [?ev]" by (auto simp: get_next_setting_eq)
      show ?thesis
      proof (cases r2)
        case (Inl e)
        with Suc.prems Some t Inr g have "w' = w2" by auto
        with 1 w2 Q(3) show ?thesis by (intro exI [of _ "evs1 @ [?ev]"]) simp
      next
        case r2: (Inr nxt)
        with Suc.prems Some t Inr g
        have more: "selection_loop fuel E self trains tests cur nxt w2 = Some (r, w')" by auto
        from Suc.IH [OF more] obtain evs where 2: "trace w' = trace w2 @ evs" "list_all Q evs"
          by blast
        with 1 w2 Q(3) show ?thesis by (intro exI [of _ "evs1 @ [?ev] @ evs"]) simp
      qed
    qed
  qed
qed

lemma run_selection_logged:
  assumes Q: "Q (DataSplitter_run (DataSplitterParams train (self_selection self)))"
      "\<And>p. Q (PathBuilder_build p)"
      "\<And>a r. Q (Strategy_get_next_setting a r)"
      "\<And>r. Q (Strategy_get_optimal_hps r)"
      "\<And>hs tr te p rid. tr \<in> set (inner_folds E self train) \<Longrightarrow> te \<in> set (inner_folds E self train) \<Longrightarrow>
         Q (MLProcess_run (MLProcess_init self hs tr te p) rid)"
      "\<And>rep ds p. ds = train \<or> ds \<in> set (inner_folds E self train) \<Longrightarrow> Q (DataReport_generate rep ds p)"
    and run: "run_selection fuel E self train cur w = Some (res, w')"
  shows "\<exists>evs. trace w' = trace w @ evs \<and> list_all Q evs"
proof -
  let ?ps = "DataSplitterParams train (self_selection self)"
  let ?pth = "selection_path self cur"
  let ?e1 = "DataSplitter_run ?ps"
  let ?e2 = "PathBuilder_build ?pth"
  show ?thesis
  proof (cases "splitter E ?ps")
    case (Inl e)
    with run have "w' = logged [?e1] w"
      by (auto simp: run_selection_def split_data_eq)
    with Q(1) show ?thesis by (intro exI [of _ "[?e1]"]) simp
  next
    case (Inr pr)
    obtain trains tests where pr: "pr = (trains, tests)" by (cases pr)
    have folds: "inner_folds E self train = trains @ tests"
      using Inr pr by (simp add: inner_folds_def)
    let ?w2 = "logged [?e1, ?e2] w"
    obtain r3 w3 where g: "get_next_setting E None ?w2 = (r3, w3)"
      by (cases "get_next_setting E None ?w2")
    let ?e3 = "Strategy_get_next_setting None r3"
    from g have w3: "trace w3 = trace w @ [?e1, ?e2, ?e3]"
      by (auto simp: get_next_setting_eq)
    have q3: "list_all Q [?e1, ?e2, ?e3]" using Q(1,2,3) by simp
    from run Inr pr g have rest: "(case r3 of
        Inl e \<Rightarrow> Some (Inl e, w3)
      | Inr hs \<Rightarrow>
          (case selection_loop fuel E self trains tests ?pth hs w3 of
             None \<Rightarrow> None
           | Some (Inl e, w4) \<Rightarrow> Some (Inl e, w4)
           | Some (Inr u, w4) \<Rightarrow>
               (case run_selection_reports E self train trains tests (?pth @ ''reports/'') w4 of
                  (Inl e, w5) \<Rightarrow> Some (Inl e, w5)
                | (Inr u', w5) \<Rightarrow> Some (get_optimal_hps E w5)))) = Some (res, w')"
      by (simp add: run_selection_def split_data_eq Let_def PathBuilder_build_call_def emit_logged)
    show ?thesis
    proof (cases r3)
      case (Inl e)
      with rest have "w' = w3" by auto
      with w3 q3 show ?thesis by (intro exI [of _ "[?e1, ?e2, ?e3]"]) simp
    next
      case r3: (Inr hso)
      with rest obtain r4 w4 where
        loop: "selection_loop fuel E self trains tests ?pth hso w3 = Some (r4, w4)"
        by (cases "selection_loop fuel E self trains tests ?pth hso w3") auto
      have "\<exists>evs. trace w4 = trace w3 @ evs \<and> list_all Q evs"
      proof (rule selection_loop_logged [OF _ _ _ loop])
        show "Q (PathBuilder_build p)" for p by (rule Q(2))
        show "Q (Strategy_get_next_setting a r)" for a r by (rule Q(3))
        show "Q (MLProcess_run (MLProcess_init self hs (trains ! i) (tests ! i) p) rid)"
          if "i < length trains" "i < length tests" for hs i p rid
          using that folds by (intro Q(5)) simp_all
      qed
      then obtain evs4 where w4: "trace w4 = trace w3 @ evs4" and q4: "list_all Q evs4" by blast
      show ?thesis
      proof (cases r4)
        case (Inl e)
        with rest r3 loop have "w' = w4" by auto
        with w3 w4 q3 q4 show ?thesis by (intro exI [of _ "[?e1, ?e2, ?e3] @ evs4"]) simp
      next
        case r4: (Inr u)
        obtain r5 w5 where reps: "run_selection_reports E self train trains tests
              (?pth @ ''reports/'') w4 = (r5, w5)"
          by (cases "run_selection_reports E self train trains tests (?pth @ ''reports/'') w4")
        have "\<exists>revs. w5 = logged revs w4 \<and> list_all Q revs"
        proof (rule run_selection_reports_logged [OF _ reps])
          show "Q (DataReport_generate rep ds p)"
            if "ds = train \<or> ds \<in> set trains \<or> ds \<in> set tests" for rep ds p
            using that folds by (intro Q(6)) auto
        qed
        then obtain revs where w5: "w5 = logged revs w4" and q5: "list_all Q revs" by blast
        show ?thesis
        proof (cases r5)
          case (Inl e)
          with rest r3 loop r4 reps have "w' = w5" by auto
          with w3 w4 w5 q3 q4 q5 show ?thesis
            by (intro exI [of _ "[?e1, ?e2, ?e3] @ evs4 @ revs"]) simp
        next
          case r5: (Inr u')
          with rest r3 loop r4 reps have fin: "get_optimal_hps E w5 = (res, w')" by auto
          let ?e6 = "Strategy_get_optimal_hps res"
          from fin have w': "trace w' = trace w5 @ [?e6]" by (auto simp: get_optimal_hps_eq)
          with w3 w4 w5 q3 q4 q5 Q(4) show ?thesis
            by (intro exI [of _ "[?e1, ?e2, ?e3] @ evs4 @ revs @ [?e6]"]) simp
        qed
      qed
    qed
  qed
qed


lemma run_assessment_fold_eq:
  "run_assessment_fold fuel E self train test rn w =
     (case run_selection fuel E self train (assessment_path self rn)
             (logged [PathBuilder_build (assessment_path self rn)] w) of
        None \<Rightarrow> None
      | Some (Inl e, w1) \<Rightarrow> Some (Inl e, w1)
      | Some (Inr opt, w1) \<Rightarrow>
          Some (assess_optimal E self train test rn (assessment_path self rn) opt w1))"
  by (simp add: run_assessment_fold_def Let_def PathBuilder_build_call_def emit_logged)

lemma run_assessment_fold_cases:
  assumes "run_assessment_fold fuel E self train test rn w = Some (res, w')"
  obtains (failed) e where
      "run_selection fuel E self train (assessment_path self rn)
         (logged [PathBuilder_build (assessment_path self rn)] w) = Some (Inl e, w')"
      "res = Inl e"
    | (selected) opt w1 where
      "run_selection fuel E self train (assessment_path self rn)
         (logged [PathBuilder_build (assessment_path self rn)] w) = Some (Inr opt, w1)"
      "assess_optimal E self train test rn (assessment_path self rn) opt w1 = (res, w')"
  using assms unfolding run_assessment_fold_eq
  by (auto split: option.splits sum.splits prod.splits)



lemma steps_not_selecting:
  assumes "prefix (map step_of evs) ([EncodeLearn, Train, EncodeApply, Assess] @ replicate n Report)"
  shows "\<forall>ev \<in> set evs. step_of ev \<noteq> Selecting"
proof
  fix ev assume "ev \<in> set evs"
  then have "step_of ev \<in> set (map step_of evs)" by simp
  also have "\<dots> \<subseteq> set ([EncodeLearn, Train, EncodeApply, Assess] @ replicate n Report)"
    using assms by (rule set_mono_prefix)
  finally show "step_of ev \<noteq> Selecting" by auto
qed

lemma filter_encoders_reports:
  "list_all (\<lambda>ev. step_of ev = Report) revs \<Longrightarrow>
   filter (\<lambda>ev. step_of ev = EncodeLearn \<or> step_of ev = EncodeApply) revs = []"
  by (induction revs) auto

text \<open>
  Claim C1. In every outer fold that ends, the selection is run on the training fold alone:
  every dataset a collaborator is given during the selection is the training fold or one
  of the inner folds the splitter cut from it, and the fold run with any other test fold
  goes through the same selection, leaving the same log and the same strategy state at its
  end. After the selection no selection call is made and the strategy is not touched; an
  encoder call is either for the training fold in learn mode or for the test fold in apply
  mode, and a fold that returns a record has made exactly these two, in this order.
\<close>

theorem fold_selection_sees_training_fold_only:
  assumes run: "run_assessment_fold fuel E self train test rn w = Some (res, w')"
  shows "\<exists>sel w1 sevs evs.
      run_selection fuel E self train (assessment_path self rn)
        (logged [PathBuilder_build (assessment_path self rn)] w) = Some (sel, w1)
    \<and> trace w1 = trace w @ PathBuilder_build (assessment_path self rn) # sevs
    \<and> (\<forall>ev \<in> set sevs. set (event_datasets ev) \<subseteq> insert train (set (inner_folds E self train)))
    \<and> w' = logged evs w1
    \<and> (\<forall>ev \<in> set evs. step_of ev \<noteq> Selecting)
    \<and> (\<forall>ps. DataEncoder_run ps \<in> set evs \<longrightarrow>
          (dep_dataset ps = train \<and> ep_learn_model (dep_encoder_params ps))
        \<or> (dep_dataset ps = test \<and> \<not> ep_learn_model (dep_encoder_params ps)))
    \<and> (\<forall>perf. res = Inr perf \<longrightarrow>
          (\<exists>opt. sel = Inr opt
             \<and> filter (\<lambda>ev. step_of ev = EncodeLearn \<or> step_of ev = EncodeApply) evs =
                 [DataEncoder_run (DataEncoderParams self train opt (assessment_path self rn) True),
                  DataEncoder_run (DataEncoderParams self test opt (assessment_path self rn) False)]))
    \<and> (\<forall>test2. \<exists>res2 evs2.
          run_assessment_fold fuel E self train test2 rn w = Some (res2, logged evs2 w1))"
proof -
  let ?cur = "assessment_path self rn"
  let ?w0 = "logged [PathBuilder_build ?cur] w"
  let ?Q = "\<lambda>ev. set (event_datasets ev) \<subseteq> insert train (set (inner_folds E self train))"
  have sel_log: "\<exists>sevs. trace w1 = trace w @ PathBuilder_build ?cur # sevs \<and> (\<forall>ev \<in> set sevs. ?Q ev)"
    if s: "run_selection fuel E self train ?cur ?w0 = Some (sel, w1)" for sel w1
  proof -
    have "\<exists>sevs. trace w1 = trace ?w0 @ sevs \<and> list_all ?Q sevs"
      by (rule run_selection_logged [OF _ _ _ _ _ _ s])
         (auto simp: DataSplitterParams_def MLProcess_init_def)
    then show ?thesis by (auto simp: list_all_iff)
  qed
  from run show ?thesis
  proof (cases rule: run_assessment_fold_cases)
    case (failed e)
    from sel_log [OF failed(1)] obtain sevs where
      s: "trace w' = trace w @ PathBuilder_build ?cur # sevs" "\<forall>ev \<in> set sevs. ?Q ev" by blast
    have other: "\<forall>test2. \<exists>res2 evs2.
          run_assessment_fold fuel E self train test2 rn w = Some (res2, logged evs2 w')"
    proof
      fix test2
      have "run_assessment_fold fuel E self train test2 rn w = Some (Inl e, logged [] w')"
        using failed(1) by (simp add: run_assessment_fold_eq)
      then show "\<exists>res2 evs2. run_assessment_fold fuel E self train test2 rn w = Some (res2, logged evs2 w')"
        by blast
    qed
    show ?thesis
      apply (rule exI [of _ "Inl e"])
      apply (rule exI [of _ w'])
      apply (rule exI [of _ sevs])
      apply (rule exI [of _ "[]"])
      using failed s other apply (intro conjI)
             apply simp_all
      done
  next
    case (selected opt w1)
    from sel_log [OF selected(1)] obtain sevs where
      s: "trace w1 = trace w @ PathBuilder_build ?cur # sevs" "\<forall>ev \<in> set sevs. ?Q ev" by blast
    from assess_optimal_logged [OF selected(2)] obtain evs n where
      w': "w' = logged evs w1"
      and pre: "prefix (map step_of evs) ([EncodeLearn, Train, EncodeApply, Assess] @ replicate n Report)"
      and enc: "\<forall>ps. DataEncoder_run ps \<in> set evs \<longrightarrow>
            ps = DataEncoderParams self train opt ?cur True \<or> ps = DataEncoderParams self test opt ?cur False"
      by blast
    have nosel: "\<forall>ev \<in> set evs. step_of ev \<noteq> Selecting"
      using pre by (rule steps_not_selecting)
    have enc': "\<forall>ps. DataEncoder_run ps \<in> set evs \<longrightarrow>
          (dep_dataset ps = train \<and> ep_learn_model (dep_encoder_params ps))
        \<or> (dep_dataset ps = test \<and> \<not> ep_learn_model (dep_encoder_params ps))"
    proof (intro allI impI)
      fix ps assume "DataEncoder_run ps \<in> set evs"
      with enc have "ps = DataEncoderParams self train opt ?cur True \<or> ps = DataEncoderParams self test opt ?cur False"
        by blast
      then show "(dep_dataset ps = train \<and> ep_learn_model (dep_encoder_params ps))
        \<or> (dep_dataset ps = test \<and> \<not> ep_learn_model (dep_encoder_params ps))"
        by auto
    qed
    have succ: "\<forall>perf. res = Inr perf \<longrightarrow>
          (\<exists>opt'. Inr opt = Inr opt'
             \<and> filter (\<lambda>ev. step_of ev = EncodeLearn \<or> step_of ev = EncodeApply) evs =
                 [DataEncoder_run (DataEncoderParams self train opt' ?cur True),
                  DataEncoder_run (DataEncoderParams self test opt' ?cur False)])"
    proof (intro allI impI)
      fix perf assume r: "res = Inr perf"
      from selected(2) r have ok: "assess_optimal E self train test rn ?cur opt w1 = (Inr perf, w')"
        by simp
      from assess_optimal_Inr [OF ok] obtain enc_train cv n_folds m enc_test revs where
        b: "w' = logged ([DataEncoder_run (DataEncoderParams self train opt ?cur True),
                      MLMethodTrainer_run
                        (MLMethodTrainerParams self enc_train opt (?cur @ ''optimal/'') cv n_folds),
                      DataEncoder_run (DataEncoderParams self test opt ?cur False),
                      MLMethodAssessment_run (MLMethodAssessmentParams self m enc_test rn ?cur)] @ revs) w1"
        and c: "list_all (\<lambda>ev. step_of ev = Report) revs"
        by (elim exE conjE)
      from b w' have "trace (logged evs w1) = trace (logged ([DataEncoder_run (DataEncoderParams self train opt ?cur True),
                      MLMethodTrainer_run
                        (MLMethodTrainerParams self enc_train opt (?cur @ ''optimal/'') cv n_folds),
                      DataEncoder_run (DataEncoderParams self test opt ?cur False),
                      MLMethodAssessment_run (MLMethodAssessmentParams self m enc_test rn ?cur)] @ revs) w1)"
        by simp
      then have d: "evs = [DataEncoder_run (DataEncoderParams self train opt ?cur True),
                      MLMethodTrainer_run
                        (MLMethodTrainerParams self enc_train opt (?cur @ ''optimal/'') cv n_folds),
                      DataEncoder_run (DataEncoderParams self test opt ?cur False),
                      MLMethodAssessment_run (MLMethodAssessmentParams self m enc_test rn ?cur)] @ revs"
        by simp
      have "filter (\<lambda>ev. step_of ev = EncodeLearn \<or> step_of ev = EncodeApply) evs =
                 [DataEncoder_run (DataEncoderParams self train opt ?cur True),
                  DataEncoder_run (DataEncoderParams self test opt ?cur False)]"
        unfolding d using filter_encoders_reports [OF c] by simp
      then show "\<exists>opt'. Inr opt = Inr opt'
             \<and> filter (\<lambda>ev. step_of ev = EncodeLearn \<or> step_of ev = EncodeApply) evs =
                 [DataEncoder_run (DataEncoderParams self train opt' ?cur True),
                  DataEncoder_run (DataEncoderParams self test opt' ?cur False)]"
        by blast
    qed
    have other: "\<forall>test2. \<exists>res2 evs2.
          run_assessment_fold fuel E self train test2 rn w = Some (res2, logged evs2 w1)"
    proof
      fix test2
      obtain res2 w2 where a: "assess_optimal E self train test2 rn ?cur opt w1 = (res2, w2)"
        by (cases "assess_optimal E self train test2 rn ?cur opt w1")
      from assess_optimal_logged [OF a] obtain evs2 where "w2 = logged evs2 w1" by blast
      with a have "run_assessment_fold fuel E self train test2 rn w = Some (res2, logged evs2 w1)"
        using selected(1) by (simp add: run_assessment_fold_eq)
      then show "\<exists>res2 evs2. run_assessment_fold fuel E self train test2 rn w = Some (res2, logged evs2 w1)"
        by blast
    qed
    show ?thesis
      apply (rule exI [of _ "Inr opt"])
      apply (rule exI [of _ w1])
      apply (rule exI [of _ sevs])
      apply (rule exI [of _ evs])
      using selected(1) s w' nosel enc' succ other apply (intro conjI)
             apply assumption+
      done
  qed
qed



theorem fold_selection_sees_training_fold_only_witness:
  "run_assessment_fold 3 (ex_env [''A'', ''B''] []) (ex_process []) (ex_ds ''B'') (ex_ds ''tB'') 2
     ex_world
   = Some (Inr [(''CD'', 3 / 5)],
           snd (the (run_assessment_fold 3 (ex_env [''A'', ''B''] []) (ex_process [])
                       (ex_ds ''B'') (ex_ds ''tB'') 2 ex_world)))
   \<and> (\<exists>w1 evs.
         snd (the (run_assessment_fold 3 (ex_env [''A'', ''B''] []) (ex_process [])
                     (ex_ds ''B'') (ex_ds ''tB'') 2 ex_world)) = logged evs w1
       \<and> (\<forall>ev \<in> set evs. step_of ev \<noteq> Selecting)
       \<and> (\<exists>res2 evs2.
             run_assessment_fold 3 (ex_env [''A'', ''B''] []) (ex_process []) (ex_ds ''B'') (ex_ds ''tA'') 2
               ex_world = Some (res2, logged evs2 w1)))"
proof -
  let ?run = "run_assessment_fold 3 (ex_env [''A'', ''B''] []) (ex_process [])
                (ex_ds ''B'') (ex_ds ''tB'') 2 ex_world"
  have f: "map_option fst ?run = Some (Inr [(''CD'', 3 / 5)])" by code_simp
  have h: "?run = Some (Inr [(''CD'', 3 / 5)], snd (the ?run))"
    using f by (rule Some_fst_snd)
  from fold_selection_sees_training_fold_only [OF h] obtain w1 evs where
    a: "snd (the ?run) = logged evs w1"
    and b: "\<forall>ev \<in> set evs. step_of ev \<noteq> Selecting"
    and c: "\<forall>test2. \<exists>res2 evs2.
          run_assessment_fold 3 (ex_env [''A'', ''B''] []) (ex_process []) (ex_ds ''B'') test2 2 ex_world
            = Some (res2, logged evs2 w1)"
    by (elim exE conjE)
  from c have c': "\<exists>res2 evs2.
          run_assessment_fold 3 (ex_env [''A'', ''B''] []) (ex_process []) (ex_ds ''B'') (ex_ds ''tA'') 2
            ex_world = Some (res2, logged evs2 w1)"
    by (rule spec)
  have "\<exists>w1 evs.
         snd (the ?run) = logged evs w1
       \<and> (\<forall>ev \<in> set evs. step_of ev \<noteq> Selecting)
       \<and> (\<exists>res2 evs2.
             run_assessment_fold 3 (ex_env [''A'', ''B''] []) (ex_process []) (ex_ds ''B'') (ex_ds ''tA'') 2
               ex_world = Some (res2, logged evs2 w1))"
    apply (rule exI [of _ w1])
    apply (rule exI [of _ evs])
    apply (intro conjI)
      apply (rule a)
     apply (rule b)
    apply (rule c')
    done
  with h show ?thesis by (rule conjI)
qed


subsection \<open>The assessment loop and its summary\<close>

lemma printed_stdout [simp]:
  "stdout (py_print line w) = stdout w @ [line]"
  "trace (py_print line w) = trace w"
  "hp_strategy (py_print line w) = hp_strategy w"
  by (simp_all add: py_print_def)












subsection \<open>Enough fuel: a run ends when the strategy exhausts\<close>














end
